theory Spec2Isabelle
  imports Complex_Main "HOL-Library.Sublist"
begin

section \<open>Texts and regular expressions\<close>

text \<open>
  The job matcher reads the language model's free text with Python's \<open>re\<close> module. Texts
  are modelled as \<open>string\<close>s, that is lists of 8-bit characters: an ASCII character is
  itself, and a character beyond ASCII of one of the source's literals is written as its
  UTF-8 bytes. The classes \<open>\s\<close> and \<open>\d\<close> and the case-insensitive comparison are those
  that Python applies to ASCII characters; a byte from 128 on is in neither class and is
  only equal to itself. (Python's \<open>str\<close> patterns also count the Unicode white space and
  decimal digits beyond ASCII, and under \<open>IGNORECASE\<close> let U+017F stand for an \<open>s\<close>;
  texts with such characters are outside the model.)
\<close>

definition is_space :: "char \<Rightarrow> bool" where
  \<comment> \<open>\<open>\s\<close> of a \<open>str\<close> pattern, on ASCII: tab, LF, VT, FF, CR, FS, GS, RS, US and space\<close>
  "is_space c = (c \<in> set [CHR 0x09, CHR 0x0A, CHR 0x0B, CHR 0x0C, CHR 0x0D,
                             CHR 0x1C, CHR 0x1D, CHR 0x1E, CHR 0x1F, CHR 0x20])"

definition is_digit :: "char \<Rightarrow> bool" where
  \<comment> \<open>\<open>\d\<close>, on ASCII\<close>
  "is_digit c = (c \<in> set ''0123456789'')"

definition ascii_lower :: "char \<Rightarrow> nat" where
  \<comment> \<open>the code of the character, that of the small letter for a capital letter\<close>
  "ascii_lower c =
     (let n = (of_char c :: nat) in if 65 \<le> n \<and> n \<le> 90 then n + 32 else n)"


text \<open>
  One character of a pattern: a literal character (compared without case, every pattern
  of the source being compiled with \<open>re.IGNORECASE\<close>), \<open>\s\<close>, \<open>\d\<close>, or a bracketed
  class listing several of these.
\<close>

datatype cc = Is char | Space | Digit | AnyOf "cc list"

fun cc_ok :: "cc \<Rightarrow> char \<Rightarrow> bool" where
  "cc_ok (Is c) x = (ascii_lower x = ascii_lower c)"
| "cc_ok Space x = is_space x"
| "cc_ok Digit x = is_digit x"
| "cc_ok (AnyOf cs) x = (\<exists>c \<in> set cs. cc_ok c x)"

text \<open>
  The patterns of the source use: single characters, concatenation, the greedy
  \<open>?\<close> on a group, the greedy \<open>+\<close> and \<open>*\<close> on a single character class, and one
  capturing group.
\<close>

datatype rx =
    Eps
  | Atom cc
  | Seq rx rx
  | Opt rx
  | Plus cc
  | Star cc
  | Cap rx

type_synonym mres = "string option \<times> string"

text \<open>
  \<open>re\<close> is a backtracking matcher: it tries the alternatives of a pattern in priority
  order (a greedy quantifier takes as much as it can first) and returns the first way in
  which the whole pattern matches. The matcher below is written in the same way, with the
  rest of the pattern as a continuation \<open>k\<close> that receives the text captured by the
  group so far and the text that is left; \<open>None\<close> is a failure, on which the caller
  tries its next alternative.
\<close>

fun m_plus :: "cc \<Rightarrow> string option \<Rightarrow> string \<Rightarrow> (string option \<Rightarrow> string \<Rightarrow> mres option) \<Rightarrow> mres option" where
  "m_plus a c [] k = None"
| "m_plus a c (x # xs) k =
     (if cc_ok a x
      then (case m_plus a c xs k of Some v \<Rightarrow> Some v | None \<Rightarrow> k c xs)
      else None)"

primrec m :: "rx \<Rightarrow> string option \<Rightarrow> string \<Rightarrow> (string option \<Rightarrow> string \<Rightarrow> mres option) \<Rightarrow> mres option" where
  "m Eps = (\<lambda>c s k. k c s)"
| "m (Atom a) = (\<lambda>c s k. case s of [] \<Rightarrow> None | x # xs \<Rightarrow> if cc_ok a x then k c xs else None)"
| "m (Seq p q) = (\<lambda>c s k. m p c s (\<lambda>c' r. m q c' r k))"
| "m (Opt p) = (\<lambda>c s k. case m p c s k of Some v \<Rightarrow> Some v | None \<Rightarrow> k c s)"
| "m (Plus a) = (\<lambda>c s k. m_plus a c s k)"
| "m (Star a) = (\<lambda>c s k. case m_plus a c s k of Some v \<Rightarrow> Some v | None \<Rightarrow> k c s)"
| "m (Cap p) = (\<lambda>c s k. m p c s (\<lambda>_ r. k (Some (take (length s - length r) s)) r))"

definition match_here :: "rx \<Rightarrow> string \<Rightarrow> mres option" where
  \<comment> \<open>a match that starts at the beginning of \<open>s\<close>: the group's text and what follows the match\<close>
  "match_here p s = m p None s (\<lambda>c r. Some (c, r))"

text \<open>
  \<open>re.search\<close>: the leftmost position at which the pattern matches. The result is the
  text before the match, the text of the capturing group, and the text after the match.
\<close>

fun re_search :: "rx \<Rightarrow> string \<Rightarrow> (string \<times> string option \<times> string) option" where
  "re_search p [] = (case match_here p [] of Some (c, r) \<Rightarrow> Some ([], c, r) | None \<Rightarrow> None)"
| "re_search p (x # xs) =
     (case match_here p (x # xs) of
        Some (c, r) \<Rightarrow> Some ([], c, r)
      | None \<Rightarrow> (case re_search p xs of
                  Some (pre, c, r) \<Rightarrow> Some (x # pre, c, r)
                | None \<Rightarrow> None))"

text \<open>
  \<open>re.split\<close> with a pattern that has no capturing group: the pieces of text between the
  successive matches. The patterns it is used with here cannot match the empty text, so
  that what is left after a match is shorter than the text searched (lemma
  \<open>re_search_header_shorter\<close> below); the last branch stands for the other patterns.
\<close>

fun re_split :: "rx \<Rightarrow> string \<Rightarrow> string list" where
  "re_split p s =
     (case re_search p s of
        None \<Rightarrow> [s]
      | Some (pre, c, r) \<Rightarrow> if length r < length s then pre # re_split p r else [s])"

declare re_split.simps [simp del]

definition re_sub1 :: "rx \<Rightarrow> string \<Rightarrow> string \<Rightarrow> string" where
  \<comment> \<open>\<open>re.sub(pattern, repl, s, count=1)\<close> for a replacement text without escapes\<close>
  "re_sub1 p repl s =
     (case re_search p s of None \<Rightarrow> s | Some (pre, c, r) \<Rightarrow> pre @ repl @ r)"

definition lit :: "string \<Rightarrow> rx" where
  "lit s = foldr (\<lambda>c p. Seq (Atom (Is c)) p) s Eps"

definition seqs :: "rx list \<Rightarrow> rx" where
  "seqs ps = foldr Seq ps Eps"

section \<open>Score parsing\<close>

text \<open>
  The patterns of \<open>_parse_job_scores_from_response\<close>, in the order of the source:
  \<^verbatim>\<open>(?:Overall\s+)?Match\s+Score[:\s*]+(\d+(?:\.\d+)?)%\<close>,
  \<^verbatim>\<open>\*\*Overall\s+Match\s+Score\*\*[:\s]+(\d+(?:\.\d+)?)%\<close>,
  \<^verbatim>\<open>Match\s+Score[:\s]+(\d+(?:\.\d+)?)%\<close> and
  \<^verbatim>\<open>(\d+(?:\.\d+)?)%\s+match\<close>.
\<close>

definition number_group :: rx where
  \<comment> \<open>\<^verbatim>\<open>(\d+(?:\.\d+)?)\<close>\<close>
  "number_group = Cap (seqs [Plus Digit, Opt (seqs [Atom (Is CHR ''.''), Plus Digit])])"

definition standard_format :: rx where
  "standard_format =
     seqs [Opt (seqs [lit ''Overall'', Plus Space]), lit ''Match'', Plus Space, lit ''Score'',
           Plus (AnyOf [Is CHR '':'', Space, Is CHR ''*'']), number_group, lit ''%'']"

definition markdown_bold_format :: rx where
  "markdown_bold_format =
     seqs [lit ''**Overall'', Plus Space, lit ''Match'', Plus Space, lit ''Score**'',
           Plus (AnyOf [Is CHR '':'', Space]), number_group, lit ''%'']"

definition simple_format :: rx where
  "simple_format =
     seqs [lit ''Match'', Plus Space, lit ''Score'',
           Plus (AnyOf [Is CHR '':'', Space]), number_group, lit ''%'']"

definition percent_match_format :: rx where
  "percent_match_format = seqs [number_group, lit ''%'', Plus Space, lit ''match'']"

definition score_patterns :: "rx list" where
  "score_patterns =
     [standard_format, markdown_bold_format, simple_format, percent_match_format]"

definition job_header_split :: rx where
  \<comment> \<open>\<^verbatim>\<open>###\s+Job\s*#?\d+[:]\<close>, the delimiter of \<open>re.split\<close>\<close>
  "job_header_split =
     seqs [lit ''###'', Plus Space, lit ''Job'', Star Space, Opt (Atom (Is CHR ''#'')),
           Plus Digit, Atom (AnyOf [Is CHR '':''])]"

definition job_header_sub :: rx where
  \<comment> \<open>\<^verbatim>\<open>###\s*Job\s*#?\d+[:]\<close>, the pattern of \<open>re.sub\<close> in \<open>process\<close>\<close>
  "job_header_sub =
     seqs [lit ''###'', Star Space, lit ''Job'', Star Space, Opt (Atom (Is CHR ''#'')),
           Plus Digit, Atom (AnyOf [Is CHR '':''])]"

text \<open>
  Python's \<open>float\<close> on the texts that the group can capture: decimal digits, or decimal
  digits, a point and decimal digits. Floating-point numbers are modelled as reals, so the
  value is the exact decimal value; \<open>None\<close> stands for \<open>ValueError\<close>, which the group's
  texts never cause.
\<close>

definition digit_val :: "char \<Rightarrow> nat" where
  "digit_val c = of_char c - 48"

definition digits_val :: "string \<Rightarrow> nat" where
  "digits_val s = foldl (\<lambda>a c. 10 * a + digit_val c) 0 s"

definition py_float :: "string \<Rightarrow> real option" where
  "py_float s =
     (let ip = takeWhile is_digit s; rest = dropWhile is_digit s in
      if ip = [] then None
      else (case rest of
              [] \<Rightarrow> Some (real (digits_val ip))
            | x # fp \<Rightarrow>
                if x = CHR ''.'' \<and> fp \<noteq> [] \<and> list_all is_digit fp
                then Some (real (digits_val ip) + real (digits_val fp) / 10 ^ length fp)
                else None))"

text \<open>
  The inner loop of \<open>_parse_job_scores_from_response\<close> over the patterns:
  \<^verbatim>\<open>
  score_value = None
  for pattern in score_patterns:
      score_match = re.search(pattern, section, re.IGNORECASE)
      if score_match:
          try:
              score_value = float(score_match.group(1)) / 100.0
              break
          except (ValueError, IndexError):
              continue
  \<close>
  \<open>None\<close> is Python's \<open>None\<close>: no score found. A pattern without a group 1 would raise
  \<open>IndexError\<close> and be passed over in the same way.
\<close>

fun find_score :: "rx list \<Rightarrow> string \<Rightarrow> real option" where
  "find_score [] section = None"
| "find_score (p # ps) section =
     (case re_search p section of
        None \<Rightarrow> find_score ps section
      | Some (pre, cap, rest) \<Rightarrow>
          (case cap of
             None \<Rightarrow> find_score ps section
           | Some g \<Rightarrow>
               (case py_float g of
                  None \<Rightarrow> find_score ps section
                | Some v \<Rightarrow> Some (v / 100))))"

subsection \<open>Jobs\<close>

text \<open>The dictionary that \<open>Retriever.retrieve_jobs\<close> builds for each retrieved posting.
  \<open>similarity_score\<close> is optional because \<open>process\<close> reads it with
  \<open>job.get('similarity_score', 0)\<close>.\<close>

record job =
  rank :: nat
  job_id :: string
  content :: string
  metadata :: "(string \<times> string) list"
  similarity_score :: "real option"
  distance :: real

datatype exn = IndexError | Error string

fun str_of_exn :: "exn \<Rightarrow> string" where
  "str_of_exn IndexError = ''list index out of range''"
| "str_of_exn (Error msg) = msg"

definition py_index :: "'a list \<Rightarrow> int \<Rightarrow> exn + 'a" where
  \<comment> \<open>\<open>xs[i]\<close>; the indices \<open>-len(xs)\<close> to \<open>-1\<close> read from the end of the list\<close>
  "py_index xs i =
     (if 0 \<le> i \<and> i < int (length xs) then Inr (xs ! nat i)
      else if - int (length xs) \<le> i \<and> i < 0 then Inr (xs ! nat (int (length xs) + i))
      else Inl IndexError)"

type_synonym scored_job = "real \<times> job \<times> string"

text \<open>
  \<^verbatim>\<open>
  job_sections = re.split(r'###\s+Job\s*#?\d+[:]', response, flags=re.IGNORECASE)
  scored_jobs = []
  for i, section in enumerate(job_sections[1:], 0):  # Skip header
      ... score_value ...
      job_idx = (start_job_num - 1) + i
      if job_idx < len(job_results):
          job_data = job_results[job_idx]
          if score_value is not None:
              scored_jobs.append((score_value, job_data, section))
          else:
              scored_jobs.append((0.0, job_data, section))
  return scored_jobs
  \<close>
\<close>

fun parse_sections :: "job list \<Rightarrow> int \<Rightarrow> nat \<Rightarrow> string list \<Rightarrow> scored_job list \<Rightarrow> exn + scored_job list" where
  "parse_sections job_results start_job_num i [] scored_jobs = Inr scored_jobs"
| "parse_sections job_results start_job_num i (section # rest) scored_jobs =
     (let score_value = find_score score_patterns section;
          job_idx = (start_job_num - 1) + int i
      in if job_idx < int (length job_results)
         then (case py_index job_results job_idx of
                 Inl e \<Rightarrow> Inl e
               | Inr job_data \<Rightarrow>
                   parse_sections job_results start_job_num (Suc i) rest
                     (scored_jobs @ [(case score_value of Some v \<Rightarrow> v | None \<Rightarrow> 0,
                                      job_data, section)]))
         else parse_sections job_results start_job_num (Suc i) rest scored_jobs)"

definition parse_job_scores_from_response :: "string \<Rightarrow> job list \<Rightarrow> int \<Rightarrow> exn + scored_job list" where
  "parse_job_scores_from_response response job_results start_job_num =
     parse_sections job_results start_job_num 0
       (drop 1 (re_split job_header_split response)) []"

section \<open>The agent and its collaborators\<close>

subsection \<open>\<open>BaseAgent\<close>\<close>

text \<open>
  The context dictionary of \<open>process\<close>, with the keys that \<open>JobMatcherAgent.process\<close>
  reads, each present or absent, and with the types that its callers give them.
  Python's \<open>None\<close> for the whole argument is \<open>None\<close>; a dictionary without any key is
  empty, which Python's \<open>not context\<close> tests.
\<close>

record context_dict =
  ctx_resume_text :: "string option"
  ctx_n_results :: "int option"
  ctx_min_match_score :: "real option"

definition has_key :: "context_dict \<Rightarrow> string \<Rightarrow> bool" where
  \<comment> \<open>\<open>key in context\<close>\<close>
  "has_key c key =
     ((key = ''resume_text'' \<and> ctx_resume_text c \<noteq> None) \<or>
      (key = ''n_results'' \<and> ctx_n_results c \<noteq> None) \<or>
      (key = ''min_match_score'' \<and> ctx_min_match_score c \<noteq> None))"

definition is_empty_dict :: "context_dict \<Rightarrow> bool" where
  "is_empty_dict c =
     (ctx_resume_text c = None \<and> ctx_n_results c = None \<and> ctx_min_match_score c = None)"

text \<open>
  \<^verbatim>\<open>
  def validate_context(self, context, required_keys):
      if not context:
          return False
      missing_keys = [key for key in required_keys if key not in context]
      if missing_keys:
          return False
      return True
  \<close>
\<close>

fun validate_context :: "context_dict option \<Rightarrow> string list \<Rightarrow> bool" where
  "validate_context None required_keys = False"
| "validate_context (Some c) required_keys =
     (if is_empty_dict c then False
      else (let missing_keys = filter (\<lambda>key. \<not> has_key c key) required_keys
            in if missing_keys \<noteq> [] then False else True))"

definition format_error_response :: "string \<Rightarrow> string" where
  "format_error_response error_msg =
     ''I apologize, but I encountered an issue: '' @ error_msg @
     ''\<newline>\<newline>Please try rephrasing your question or providing more context.''"

subsection \<open>The collaborators\<close>

text \<open>What \<open>ChromaManager.search_jobs\<close> returns: four lists of the same retrieval.\<close>

record search_results =
  documents :: "string list"
  metadatas :: "(string \<times> string) list list"
  distances :: "real list"
  ids :: "string list"

text \<open>
  The collaborators of one call of \<open>process\<close>, each with the failure it may raise:
  \<^item> \<open>total_jobs\<close>: the count that \<open>chroma_manager.get_stats()\<close> reports;
  \<^item> \<open>search_jobs\<close>: \<open>chroma_manager.search_jobs(query, n_results)\<close>;
  \<^item> \<open>extract_key_resume_info\<close>: the search query that \<open>_extract_key_resume_info\<close>
    derives from the resume, a pure function of the resume that no property below
    depends on;
  \<^item> \<open>llm_generate\<close>: \<open>self.llm.generate\<close> on the prompt built for one job. The resume
    and the query are the same for every prompt of a call, and the model may answer the
    same prompt differently, so its answer is a function of the number of completion
    calls made before and of the job;
  \<^item> \<open>fmt_0f\<close>: Python's \<open>:.0f\<close> formatting of a floating-point number.
\<close>

record env =
  total_jobs :: "exn + nat"
  search_jobs :: "string \<Rightarrow> nat \<Rightarrow> exn + search_results"
  extract_key_resume_info :: "string \<Rightarrow> string"
  llm_generate :: "nat \<Rightarrow> job \<Rightarrow> exn + string"
  fmt_0f :: "real \<Rightarrow> string"

definition TOP_K_RETRIEVAL :: nat where
  "TOP_K_RETRIEVAL = 3"

definition MIN_JOB_MATCH_SCORE :: real where
  "MIN_JOB_MATCH_SCORE = 0.60"

text \<open>
  \<open>Retriever.retrieve_jobs\<close>:
  \<^verbatim>\<open>
  n_results = n_results or settings.TOP_K_RETRIEVAL
  results = self.chroma_manager.search_jobs(query=query, n_results=n_results, ...)
  jobs = []
  for i, (doc, metadata, distance, doc_id) in enumerate(zip(results['documents'],
          results['metadatas'], results['distances'], results['ids'])):
      jobs.append({'rank': i + 1, 'id': doc_id, 'content': doc, 'metadata': metadata,
                   'similarity_score': 1 - distance, 'distance': distance})
  return jobs
  \<close>
\<close>

fun format_jobs :: "nat \<Rightarrow> (string \<times> (string \<times> string) list \<times> real \<times> string) list \<Rightarrow> job list" where
  "format_jobs i [] = []"
| "format_jobs i ((doc, md, d, doc_id) # rest) =
     \<lparr>rank = i + 1, job_id = doc_id, content = doc, metadata = md,
      similarity_score = Some (1 - d), distance = d\<rparr> # format_jobs (Suc i) rest"

definition retrieve_jobs :: "env \<Rightarrow> string \<Rightarrow> nat \<Rightarrow> exn + job list" where
  "retrieve_jobs e query n_results =
     (let n = (if n_results = 0 then TOP_K_RETRIEVAL else n_results) in
      case search_jobs e query n of
        Inl err \<Rightarrow> Inl err
      | Inr results \<Rightarrow>
          Inr (format_jobs 0 (zip (documents results) (zip (metadatas results)
                 (zip (distances results) (ids results))))))"

text \<open>
  \<open>BaseAgent.generate_response\<close>: a failure of the model is caught here and turned into
  a text:
  \<^verbatim>\<open>
  try:
      response = self.llm.generate(...)
      return response
  except Exception as e:
      return f"I apologize, but I encountered an error processing your request: {str(e)}"
  \<close>
\<close>

definition generate_response :: "env \<Rightarrow> nat \<Rightarrow> job \<Rightarrow> string" where
  "generate_response e calls_before j =
     (case llm_generate e calls_before j of
        Inr response \<Rightarrow> response
      | Inl err \<Rightarrow>
          ''I apologize, but I encountered an error processing your request: '' @ str_of_exn err)"

section \<open>\<open>JobMatcherAgent.process\<close>\<close>

subsection \<open>The pre-filter\<close>

definition min_semantic_similarity :: real where
  "min_semantic_similarity = 0.35"

definition get_similarity_score :: "job \<Rightarrow> real" where
  \<comment> \<open>\<open>job.get('similarity_score', 0)\<close>\<close>
  "get_similarity_score j = (case similarity_score j of Some v \<Rightarrow> v | None \<Rightarrow> 0)"

definition pre_filter :: "job list \<Rightarrow> job list" where
  \<comment> \<open>\<open>[job for job in all_job_results if job.get('similarity_score', 0) >= min_semantic_similarity]\<close>\<close>
  "pre_filter all_job_results =
     filter (\<lambda>j. get_similarity_score j \<ge> min_semantic_similarity) all_job_results"

subsection \<open>The scoring loop\<close>

text \<open>
  The variables of the loop, and the completion calls made so far (the jobs whose prompt
  was sent to the model, in order).
\<close>

record loop_state =
  matched_jobs :: "scored_job list"
  jobs_checked :: nat
  completions :: "job list"

definition init_state :: loop_state where
  "init_state = \<lparr>matched_jobs = [], jobs_checked = 0, completions = []\<rparr>"

datatype ctl = Continue | Break

text \<open>
  One iteration:
  \<^verbatim>\<open>
  if len(matched_jobs) >= n_results:
      break
  jobs_checked += 1
  ...
  try:
      response = self.generate_response(user_prompt=context_text, ...)
      job_scored = self._parse_job_scores_from_response(response, [job], 1)
      if job_scored:
          score, job_data, section = job_scored[0]
          if score >= min_match_score:
              matched_jobs.append((score, job_data, section))
              if len(matched_jobs) >= n_results:
                  break
  except Exception as e:
      continue
  \<close>
\<close>

definition loop_body :: "env \<Rightarrow> int \<Rightarrow> real \<Rightarrow> job \<Rightarrow> loop_state \<Rightarrow> ctl \<times> loop_state" where
  "loop_body e n_results min_match_score j st =
     (if int (length (matched_jobs st)) \<ge> n_results then (Break, st)
      else
        (let response = generate_response e (length (completions st)) j;
             st1 = st\<lparr>jobs_checked := jobs_checked st + 1,
                       completions := completions st @ [j]\<rparr>
         in case parse_job_scores_from_response response [j] 1 of
              Inl err \<Rightarrow> (Continue, st1)
            | Inr [] \<Rightarrow> (Continue, st1)
            | Inr ((score, job_data, section) # _) \<Rightarrow>
                if score \<ge> min_match_score
                then (let st2 = st1\<lparr>matched_jobs :=
                                      matched_jobs st1 @ [(score, job_data, section)]\<rparr>
                      in if int (length (matched_jobs st2)) \<ge> n_results
                         then (Break, st2) else (Continue, st2))
                else (Continue, st1)))"

fun scoring_loop :: "env \<Rightarrow> int \<Rightarrow> real \<Rightarrow> job list \<Rightarrow> loop_state \<Rightarrow> loop_state" where
  "scoring_loop e n_results min_match_score [] st = st"
| "scoring_loop e n_results min_match_score (j # rest) st =
     (case loop_body e n_results min_match_score j st of
        (Break, st') \<Rightarrow> st'
      | (Continue, st') \<Rightarrow> scoring_loop e n_results min_match_score rest st')"

text \<open>The states that the loop goes through: the state after each iteration it runs.\<close>

fun scoring_states :: "env \<Rightarrow> int \<Rightarrow> real \<Rightarrow> job list \<Rightarrow> loop_state \<Rightarrow> loop_state list" where
  "scoring_states e n_results min_match_score [] st = []"
| "scoring_states e n_results min_match_score (j # rest) st =
     (case loop_body e n_results min_match_score j st of
        (Break, st') \<Rightarrow> [st']
      | (Continue, st') \<Rightarrow> st' # scoring_states e n_results min_match_score rest st')"

subsection \<open>The response\<close>

definition digit_char :: "nat \<Rightarrow> char" where
  "digit_char d = ''0123456789'' ! (d mod 10)"

fun str_nat :: "nat \<Rightarrow> string" where
  \<comment> \<open>\<open>str\<close> of a natural number\<close>
  "str_nat n = (if n < 10 then [digit_char n] else str_nat (n div 10) @ [digit_char (n mod 10)])"

declare str_nat.simps [simp del]

definition job_label :: "nat \<Rightarrow> string" where
  \<comment> \<open>\<open>f'### Job #{rank}:'\<close>\<close>
  "job_label r = ''### Job #'' @ str_nat r @ '':''"

text \<open>
  \<^verbatim>\<open>
  for rank, (score, job_data, section) in enumerate(matched_jobs, 1):
      # Renumber job in section
      section = re.sub(r'###\s*Job\s*#?\d+[:]', f'### Job #{rank}:', section, count=1,
                       flags=re.IGNORECASE)
      ranked_sections.append(section)
  \<close>
\<close>

fun ranked_sections :: "nat \<Rightarrow> scored_job list \<Rightarrow> string list" where
  "ranked_sections r [] = []"
| "ranked_sections r ((score, job_data, section) # rest) =
     re_sub1 job_header_sub (job_label r) section # ranked_sections (Suc r) rest"

definition no_jobs_in_database :: string where
  "no_jobs_in_database =
     ''I couldn't find any jobs in the database. Please run `python load_data.py` to load job postings.''"

definition no_matching_jobs :: string where
  "no_matching_jobs =
     ''I couldn't find any matching jobs in the database. Please try uploading more job postings or adjusting your resume.''"

definition warning_sign :: string where
  \<comment> \<open>U+26A0 U+FE0F in UTF-8\<close>
  "warning_sign = [CHR 0xE2, CHR 0x9A, CHR 0xA0, CHR 0xEF, CHR 0xB8, CHR 0x8F]"

definition direct_hit :: string where
  \<comment> \<open>U+1F3AF in UTF-8\<close>
  "direct_hit = [CHR 0xF0, CHR 0x9F, CHR 0x8E, CHR 0xAF]"

definition no_jobs_above_threshold :: "env \<Rightarrow> real \<Rightarrow> nat \<Rightarrow> nat \<Rightarrow> string" where
  "no_jobs_above_threshold e min_match_score checked retrieved =
     ''\<newline>'' @ warning_sign @ '' **No jobs found above '' @ fmt_0f e (min_match_score * 100) @
     ''% match threshold.**\<newline>\<newline>'' @
     ''I checked '' @ str_nat checked @ '' jobs from the database (pre-filtered from '' @
     str_nat retrieved @ '' candidates), but none met the '' @
     fmt_0f e (min_match_score * 100) @ ''% match threshold.\<newline>\<newline>'' @
     ''Consider:\<newline>'' @
     ''- Expanding your search criteria\<newline>'' @
     ''- Adjusting the match threshold\<newline>'' @
     ''- Reviewing jobs with lower scores to see if any are still relevant''"

definition matches_header :: "env \<Rightarrow> real \<Rightarrow> nat \<Rightarrow> string" where
  "matches_header e min_match_score k =
     ''## '' @ direct_hit @ '' '' @ str_nat k @ '' Job Matches Found (First '' @ str_nat k @
     '' Above '' @ fmt_0f e (min_match_score * 100) @ ''% Threshold)\<newline>\<newline>''"

definition final_response :: "env \<Rightarrow> real \<Rightarrow> scored_job list \<Rightarrow> string" where
  "final_response e min_match_score matched =
     matches_header e min_match_score (length matched) @ concat (ranked_sections 1 matched)"

subsection \<open>The whole call\<close>

text \<open>The calls to the collaborators that one call of \<open>process\<close> makes, in order.\<close>

datatype call = Stats_call | Retrieval_call string nat | Completion_call job

definition max_candidates :: "nat \<Rightarrow> nat" where
  "max_candidates total_count =
     (if total_count \<le> 500 then min 50 total_count
      else if total_count \<le> 5000 then min 50 total_count
      else min 75 total_count)"

text \<open>
  The body of the \<open>try\<close> statement of \<open>process\<close>, entered after the context has
  been read. An exception of the collaborators is caught by its \<open>except\<close>, which
  returns \<open>format_error_response(str(e))\<close>. The prompt that
  \<open>ContextBuilder.build_job_matching_context\<close> builds for a job only matters through
  the answer of the model, and the \<open>print\<close> calls are left out.
\<close>

definition process_body :: "env \<Rightarrow> string \<Rightarrow> int \<Rightarrow> real \<Rightarrow> string \<times> call list" where
  "process_body e resume_text n_results min_match_score =
     (case total_jobs e of
        Inl err \<Rightarrow> (format_error_response (str_of_exn err), [Stats_call])
      | Inr total_count \<Rightarrow>
          if total_count = 0 then (no_jobs_in_database, [Stats_call])
          else
            (let search_query = extract_key_resume_info e resume_text;
                 n = max_candidates total_count;
                 calls = [Stats_call, Retrieval_call search_query n]
             in case retrieve_jobs e search_query n of
                  Inl err \<Rightarrow> (format_error_response (str_of_exn err), calls)
                | Inr all_job_results \<Rightarrow>
                    if all_job_results = [] then (no_matching_jobs, calls)
                    else
                      (let pre_filtered_jobs = pre_filter all_job_results;
                           st = scoring_loop e n_results min_match_score pre_filtered_jobs
                                  init_state;
                           calls' = calls @ map Completion_call (completions st)
                       in if matched_jobs st = []
                          then (no_jobs_above_threshold e min_match_score (jobs_checked st)
                                  (length all_job_results), calls')
                          else (final_response e min_match_score (matched_jobs st), calls'))))"

text \<open>
  \<^verbatim>\<open>
  if not self.validate_context(context, ['resume_text']):
      return self.format_error_response("Please provide your resume to find matching jobs.")
  resume_text = context['resume_text']
  n_results = context.get('n_results', 5)
  min_match_score = context.get('min_match_score', settings.MIN_JOB_MATCH_SCORE)
  \<close>
  The result is the text returned and the calls made. The user's query only goes into the
  prompts.
\<close>

definition process :: "env \<Rightarrow> string \<Rightarrow> context_dict option \<Rightarrow> string \<times> call list" where
  "process e query ctx =
     (if \<not> validate_context ctx [''resume_text'']
      then (format_error_response ''Please provide your resume to find matching jobs.'', [])
      else (case ctx of
              None \<Rightarrow> (format_error_response ''Please provide your resume to find matching jobs.'', [])
            | Some c \<Rightarrow>
                (case ctx_resume_text c of
                   None \<Rightarrow> (format_error_response ''Please provide your resume to find matching jobs.'', [])
                 | Some resume_text \<Rightarrow>
                     process_body e resume_text
                       (case ctx_n_results c of Some n \<Rightarrow> n | None \<Rightarrow> 5)
                       (case ctx_min_match_score c of Some v \<Rightarrow> v | None \<Rightarrow> MIN_JOB_MATCH_SCORE))))"

subsection \<open>What one iteration decides\<close>

text \<open>
  Used to state what the loop computes: the entry that the iteration for job \<open>j\<close>
  appends when it is the \<open>i\<close>-th completion call (counting from 0), if it appends one.
\<close>

definition accept :: "env \<Rightarrow> real \<Rightarrow> nat \<Rightarrow> job \<Rightarrow> scored_job option" where
  "accept e min_match_score i j =
     (case parse_job_scores_from_response (generate_response e i j) [j] 1 of
        Inr ((score, job_data, sec) # _) \<Rightarrow>
          if score \<ge> min_match_score then Some (score, job_data, sec) else None
      | _ \<Rightarrow> None)"


section \<open>Example data\<close>

text \<open>Two retrieved jobs and collaborators with fixed answers, for the concrete cases below.\<close>

definition job_a :: job where
  "job_a = \<lparr>rank = 1, job_id = ''job-a'', content = ''Backend engineer, Python'',
            metadata = [(''title'', ''Backend Engineer'')],
            similarity_score = Some (4/5), distance = 1/5\<rparr>"

definition job_b :: job where
  "job_b = \<lparr>rank = 2, job_id = ''job-b'', content = ''Data engineer, SQL'',
            metadata = [(''title'', ''Data Engineer'')],
            similarity_score = Some (7/10), distance = 3/10\<rparr>"

definition two_results :: search_results where
  "two_results = \<lparr>documents = [''Backend engineer, Python'', ''Data engineer, SQL''],
                   metadatas = [[(''title'', ''Backend Engineer'')], [(''title'', ''Data Engineer'')]],
                   distances = [1/5, 3/10],
                   ids = [''job-a'', ''job-b'']\<rparr>"

definition answer_70 :: string where
  "answer_70 = ''### Job #1: Backend Engineer\<newline>**Overall Match Score:** 70%''"

definition answer_90 :: string where
  "answer_90 = ''### Job #1: Data Engineer\<newline>**Overall Match Score:** 90%''"

text \<open>The model scores \<open>job_a\<close>, first in the pool, at 70% and \<open>job_b\<close> at 90%.\<close>

definition env_ex :: env where
  "env_ex = \<lparr>total_jobs = Inr 2,
              search_jobs = (\<lambda>q n. Inr two_results),
              extract_key_resume_info = (\<lambda>r. r),
              llm_generate = (\<lambda>i j. if job_id j = ''job-a'' then Inr answer_70 else Inr answer_90),
              fmt_0f = (\<lambda>x. ''60'')\<rparr>"

definition env_empty :: env where
  "env_empty = env_ex\<lparr>total_jobs := Inr 0\<rparr>"

definition ctx_ex :: context_dict where
  "ctx_ex = \<lparr>ctx_resume_text = Some ''Python developer, five years'',
              ctx_n_results = Some 1, ctx_min_match_score = None\<rparr>"

definition ctx_empty :: context_dict where
  "ctx_empty = \<lparr>ctx_resume_text = None, ctx_n_results = None, ctx_min_match_score = None\<rparr>"





text \<open>\<open>sub in s\<close> for two texts.\<close>

fun contains :: "string \<Rightarrow> string \<Rightarrow> bool" where
  "contains sub [] = (sub = [])"
| "contains sub (x # xs) = (prefix sub (x # xs) \<or> contains sub xs)"

text \<open>A context that asks for two results; a model whose call fails with a message that
  quotes a job section.\<close>

definition ctx_two :: context_dict where
  "ctx_two = ctx_ex\<lparr>ctx_n_results := Some 2\<rparr>"

definition failure_message :: string where
  "failure_message =
     ''Error generating response from openai: output rejected: ### Job 1: Match Score: 90%''"

definition env_fail :: env where
  "env_fail = env_ex\<lparr>llm_generate := (\<lambda>i j. Inl (Error failure_message))\<rparr>"

section \<open>Properties\<close>

subsection \<open>Auxiliary facts\<close>

lemmas rx_eval = lit_def seqs_def number_group_def score_patterns_def standard_format_def
  markdown_bold_format_def simple_format_def percent_match_format_def job_header_split_def
  job_header_sub_def match_here_def is_space_def is_digit_def ascii_lower_def py_float_def
  digits_val_def digit_val_def re_split.simps re_sub1_def

lemmas ex_eval = job_a_def job_b_def two_results_def answer_70_def answer_90_def env_ex_def
  env_empty_def ctx_ex_def ctx_empty_def


lemma parse_sections_skip:
  "1 \<le> i \<Longrightarrow> parse_sections [j] 1 i secs acc = Inr acc"
  by (induction secs arbitrary: i acc) simp_all

lemma parse_single:
  "parse_job_scores_from_response response [j] 1 =
     Inr (case drop 1 (re_split job_header_split response) of
            [] \<Rightarrow> []
          | sec # _ \<Rightarrow> [(case find_score score_patterns sec of Some v \<Rightarrow> v | None \<Rightarrow> 0, j, sec)])"
  by (cases "drop 1 (re_split job_header_split response)")
     (simp_all add: parse_job_scores_from_response_def py_index_def parse_sections_skip)

lemma loop_body_cases:
  "loop_body e n mn j st =
     (if int (length (matched_jobs st)) \<ge> n then (Break, st)
      else (case accept e mn (length (completions st)) j of
              None \<Rightarrow> (Continue, st\<lparr>jobs_checked := jobs_checked st + 1, completions := completions st @ [j]\<rparr>)
            | Some x \<Rightarrow>
                (if int (length (matched_jobs st)) + 1 \<ge> n then Break else Continue,
                 st\<lparr>jobs_checked := jobs_checked st + 1, completions := completions st @ [j],
                    matched_jobs := matched_jobs st @ [x]\<rparr>)))"
  by (auto simp: loop_body_def accept_def Let_def split: sum.splits list.splits)


lemma loop_body_matched_le:
  assumes "int (length (matched_jobs st)) \<le> n" "loop_body e n mn j st = (c, st')"
  shows "int (length (matched_jobs st')) \<le> n"
  using assms by (auto simp: loop_body_cases split: if_splits option.splits)

lemma scoring_states_matched_le:
  "int (length (matched_jobs st)) \<le> n \<Longrightarrow>
   \<forall>s \<in> set (scoring_states e n mn js st). int (length (matched_jobs s)) \<le> n"
proof (induction js arbitrary: st)
  case Nil
  then show ?case by simp
next
  case (Cons j js)
  obtain c st' where b: "loop_body e n mn j st = (c, st')" by (cases "loop_body e n mn j st")
  with Cons.prems have le: "int (length (matched_jobs st')) \<le> n"
    by (rule loop_body_matched_le)
  show ?case
    using b le Cons.IH [OF le] by (cases c) simp_all
qed

lemma scoring_loop_last:
  "scoring_loop e n mn js st = last (st # scoring_states e n mn js st)"
proof (induction js arbitrary: st)
  case Nil
  then show ?case by simp
next
  case (Cons j js)
  obtain c st' where b: "loop_body e n mn j st = (c, st')" by (cases "loop_body e n mn j st")
  show ?case using b Cons.IH [of st'] by (cases c) simp_all
qed

lemma scoring_loop_full:
  "int (length (matched_jobs st)) \<ge> n \<Longrightarrow> scoring_loop e n mn js st = st"
  by (cases js) (simp_all add: loop_body_cases)

lemma scoring_loop_early_stop:
  "int (length (matched_jobs (scoring_loop e n mn pre st))) = n \<Longrightarrow>
   scoring_loop e n mn (pre @ rest) st = scoring_loop e n mn pre st"
proof (induction pre arbitrary: st)
  case Nil
  then show ?case by (simp add: scoring_loop_full)
next
  case (Cons j pre)
  obtain c st' where b: "loop_body e n mn j st = (c, st')" by (cases "loop_body e n mn j st")
  show ?case
  proof (cases c)
    case Continue
    with b Cons.prems have "int (length (matched_jobs (scoring_loop e n mn pre st'))) = n" by simp
    from Cons.IH [OF this] b Continue show ?thesis by simp
  next
    case Break
    with b show ?thesis by simp
  qed
qed

lemma scoring_loop_completions:
  "\<exists>done. completions (scoring_loop e n mn js st) = completions st @ done \<and> prefix done js
       \<and> jobs_checked (scoring_loop e n mn js st) = jobs_checked st + length done"
proof (induction js arbitrary: st)
  case Nil
  then show ?case by simp
next
  case (Cons j js)
  show ?case
  proof (cases "int (length (matched_jobs st)) \<ge> n")
    case True
    then show ?thesis by (simp add: loop_body_cases)
  next
    case False
    obtain c st' where b: "loop_body e n mn j st = (c, st')" by (cases "loop_body e n mn j st")
    with False have st': "completions st' = completions st @ [j]" "jobs_checked st' = jobs_checked st + 1"
      by (auto simp: loop_body_cases split: option.splits)
    show ?thesis
    proof (cases c)
      case Break
      with b st' show ?thesis by (intro exI [of _ "[j]"]) simp
    next
      case Continue
      from Cons.IH [of st'] obtain d where
        d: "completions (scoring_loop e n mn js st') = completions st' @ d" "prefix d js"
           "jobs_checked (scoring_loop e n mn js st') = jobs_checked st' + length d" by blast
      with b st' Continue show ?thesis by (intro exI [of _ "j # d"]) simp
    qed
  qed
qed

lemma scoring_loop_matched:
  "matched_jobs (scoring_loop e n mn js st) =
     matched_jobs st @
     take (nat n - length (matched_jobs st))
       (List.map_filter (\<lambda>(i, j). accept e mn i j) (enumerate (length (completions st)) js))"
proof (induction js arbitrary: st)
  case Nil
  then show ?case by (simp add: List.map_filter_simps)
next
  case (Cons j js)
  show ?case
  proof (cases "int (length (matched_jobs st)) \<ge> n")
    case True
    then have "nat n - length (matched_jobs st) = 0" by simp
    with True show ?thesis by (simp add: loop_body_cases)
  next
    case False
    then have lt: "length (matched_jobs st) < nat n" by simp
    show ?thesis
    proof (cases "accept e mn (length (completions st)) j")
      case None
      with False show ?thesis
        by (simp add: loop_body_cases Cons.IH List.map_filter_simps)
    next
      case (Some x)
      show ?thesis
      proof (cases "int (length (matched_jobs st)) + 1 \<ge> n")
        case True
        with lt have "nat n - length (matched_jobs st) = Suc 0" by simp
        with False Some True show ?thesis
          by (simp add: loop_body_cases List.map_filter_simps)
      next
        case False2: False
        then have "nat n - length (matched_jobs st) = Suc (nat n - Suc (length (matched_jobs st)))"
          by simp
        with False Some False2 show ?thesis
          by (simp add: loop_body_cases Cons.IH List.map_filter_simps)
      qed
    qed
  qed
qed


lemma accept_job: "accept e mn i j = Some (s, jd, sec) \<Longrightarrow> jd = j"
  by (auto simp: accept_def parse_single split: list.splits if_splits)

lemma subseq_accepted:
  "subseq (map (\<lambda>(s, jd, sec). jd) (List.map_filter (\<lambda>(i, j). accept e mn i j) (enumerate k js))) js"
proof (induction js arbitrary: k)
  case Nil
  then show ?case by (simp add: List.map_filter_simps)
next
  case (Cons j js)
  show ?case
  proof (cases "accept e mn k j")
    case None
    then show ?thesis using Cons.IH [of "Suc k"] by (auto simp: List.map_filter_simps)
  next
    case (Some x)
    obtain s jd sec where x: "x = (s, jd, sec)" by (cases x)
    with Some have "jd = j" by (auto dest: accept_job)
    with Some x show ?thesis using Cons.IH [of "Suc k"] by (simp add: List.map_filter_simps)
  qed
qed

subsection \<open>The example answers, evaluated\<close>

lemma accept_eval:
  assumes "generate_response e i j = response"
    and "re_split job_header_split response = hdr # sec # others"
  shows "accept e mn i j =
           (let s = (case find_score score_patterns sec of Some v \<Rightarrow> v | None \<Rightarrow> 0)
            in if mn \<le> s then Some (s, j, sec) else None)"
  using assms by (simp add: accept_def parse_single Let_def)


lemma split_answer_70:
  "re_split job_header_split answer_70 = [[], '' Backend Engineer\<newline>**Overall Match Score:** 70%'']"
  by (simp add: rx_eval answer_70_def)

lemma score_answer_70:
  "find_score score_patterns '' Backend Engineer\<newline>**Overall Match Score:** 70%'' = Some (7/10)"
  by (simp add: rx_eval)

lemma split_answer_90:
  "re_split job_header_split answer_90 = [[], '' Data Engineer\<newline>**Overall Match Score:** 90%'']"
  by (simp add: rx_eval answer_90_def)

lemma score_answer_90:
  "find_score score_patterns '' Data Engineer\<newline>**Overall Match Score:** 90%'' = Some (9/10)"
  by (simp add: rx_eval)

lemma generate_env_ex:
  "generate_response env_ex i job_a = answer_70" "generate_response env_ex i job_b = answer_90"
  by (simp_all add: generate_response_def env_ex_def job_a_def job_b_def)

lemma accept_job_a:
  "accept env_ex (3/5) i job_a = Some (7/10, job_a, '' Backend Engineer\<newline>**Overall Match Score:** 70%'')"
  by (simp add: accept_eval [OF generate_env_ex(1) split_answer_70] score_answer_70)

lemma accept_job_b:
  "accept env_ex (3/5) i job_b = Some (9/10, job_b, '' Data Engineer\<newline>**Overall Match Score:** 90%'')"
  by (simp add: accept_eval [OF generate_env_ex(2) split_answer_90] score_answer_90)

lemma matched_ex_1:
  "matched_jobs (scoring_loop env_ex 1 (3/5) [job_a, job_b] init_state) =
     [(7/10, job_a, '' Backend Engineer\<newline>**Overall Match Score:** 70%'')]"
  by (simp only: scoring_loop_matched)
     (simp add: init_state_def List.map_filter_simps accept_job_a accept_job_b)

lemma loop_a: "scoring_loop env_ex 1 (3/5) [job_a] init_state =
   \<lparr>matched_jobs = [(7/10, job_a, '' Backend Engineer\<newline>**Overall Match Score:** 70%'')],
    jobs_checked = 1, completions = [job_a]\<rparr>"
  by (simp add: loop_body_cases init_state_def accept_job_a)





lemma retrieve_ex: "retrieve_jobs env_ex q 2 = Inr [job_a, job_b]"
  by (simp add: retrieve_jobs_def env_ex_def two_results_def job_a_def job_b_def)

lemma pre_filter_ex: "pre_filter [job_a, job_b] = [job_a, job_b]"
  by (simp add: pre_filter_def get_similarity_score_def min_semantic_similarity_def
        job_a_def job_b_def)

lemma loop_ex_2:
  "scoring_loop env_ex 2 (3/5) [job_a, job_b] init_state =
     \<lparr>matched_jobs = [(7/10, job_a, '' Backend Engineer\<newline>**Overall Match Score:** 70%''),
                      (9/10, job_b, '' Data Engineer\<newline>**Overall Match Score:** 90%'')],
      jobs_checked = 2, completions = [job_a, job_b]\<rparr>"
  by (simp add: loop_body_cases init_state_def accept_job_a accept_job_b)

lemma no_label_to_replace:
  "re_sub1 job_header_sub lbl '' Backend Engineer\<newline>**Overall Match Score:** 70%'' =
     '' Backend Engineer\<newline>**Overall Match Score:** 70%''"
  "re_sub1 job_header_sub lbl '' Data Engineer\<newline>**Overall Match Score:** 90%'' =
     '' Data Engineer\<newline>**Overall Match Score:** 90%''"
  by (simp_all add: rx_eval)

lemma process_ex_2:
  "process env_ex ''find jobs'' (Some ctx_two) =
     (''## '' @ direct_hit @ '' 2 Job Matches Found (First 2 Above 60% Threshold)\<newline>\<newline>'' @
      '' Backend Engineer\<newline>**Overall Match Score:** 70%'' @
      '' Data Engineer\<newline>**Overall Match Score:** 90%'',
      [Stats_call, Retrieval_call ''Python developer, five years'' 2,
       Completion_call job_a, Completion_call job_b])"
proof -
  have e: "total_jobs env_ex = Inr 2" "extract_key_resume_info env_ex r = r"
    "fmt_0f env_ex x = ''60''" for r x
    by (simp_all add: env_ex_def)
  have m: "max_candidates 2 = 2" by (simp add: max_candidates_def)
  have s: "str_nat (Suc (Suc 0)) = ''2''" by (simp add: str_nat.simps digit_char_def)
  have p: "process env_ex ''find jobs'' (Some ctx_two) =
      process_body env_ex ''Python developer, five years'' 2 (3/5)"
    by (simp add: process_def ctx_two_def ctx_ex_def has_key_def is_empty_dict_def
          MIN_JOB_MATCH_SCORE_def)
  show ?thesis
    unfolding p
    by (simp add: process_body_def e m retrieve_ex pre_filter_ex loop_ex_2 final_response_def
          matches_header_def s no_label_to_replace del: scoring_loop.simps)
qed

lemma loop_ex_1:
  "scoring_loop env_ex 1 (3/5) [job_a, job_b] init_state =
     \<lparr>matched_jobs = [(7/10, job_a, '' Backend Engineer\<newline>**Overall Match Score:** 70%'')],
      jobs_checked = 1, completions = [job_a]\<rparr>"
  by (simp add: loop_body_cases init_state_def accept_job_a)

lemma process_ex_1:
  "process env_ex ''find jobs'' (Some ctx_ex) =
     (''## '' @ direct_hit @ '' 1 Job Matches Found (First 1 Above 60% Threshold)\<newline>\<newline>'' @
      '' Backend Engineer\<newline>**Overall Match Score:** 70%'',
      [Stats_call, Retrieval_call ''Python developer, five years'' 2, Completion_call job_a])"
proof -
  have e: "total_jobs env_ex = Inr 2" "extract_key_resume_info env_ex r = r"
    "fmt_0f env_ex x = ''60''" for r x
    by (simp_all add: env_ex_def)
  have m: "max_candidates 2 = 2" by (simp add: max_candidates_def)
  have s: "str_nat (Suc 0) = ''1''" by (simp add: str_nat.simps digit_char_def)
  have p: "process env_ex ''find jobs'' (Some ctx_ex) =
      process_body env_ex ''Python developer, five years'' 1 (3/5)"
    by (simp add: process_def ctx_ex_def has_key_def is_empty_dict_def MIN_JOB_MATCH_SCORE_def)
  show ?thesis
    unfolding p
    by (simp add: process_body_def e m retrieve_ex pre_filter_ex loop_ex_1 final_response_def
          matches_header_def s no_label_to_replace del: scoring_loop.simps)
qed


subsection \<open>The bound on accepted matches and the early stop\<close>

text \<open>
  Claim C1. For a requested result count \<open>n_results \<ge> 0\<close>: in every state of the scoring
  loop the number of accepted matches is at most \<open>n_results\<close>; whenever the loop has reached
  \<open>n_results\<close> matches after a part \<open>pre\<close> of the pool, the candidates \<open>rest\<close> that follow
  change nothing, so that no completion call is made for them; the completion calls
  are made for a prefix of the pool, one per job checked, hence at most
  \<open>len(pre_filtered_jobs)\<close> of them.
\<close>

theorem early_stop_bound:
  assumes "0 \<le> n_results"
  shows "(\<forall>st \<in> set (init_state # scoring_states e n_results mn pool init_state).
            int (length (matched_jobs st)) \<le> n_results)
       \<and> scoring_loop e n_results mn pool init_state =
           last (init_state # scoring_states e n_results mn pool init_state)
       \<and> (\<forall>pre rest. pool = pre @ rest \<longrightarrow>
             int (length (matched_jobs (scoring_loop e n_results mn pre init_state))) = n_results \<longrightarrow>
             scoring_loop e n_results mn pool init_state = scoring_loop e n_results mn pre init_state)
       \<and> prefix (completions (scoring_loop e n_results mn pool init_state)) pool
       \<and> length (completions (scoring_loop e n_results mn pool init_state)) \<le> length pool
       \<and> jobs_checked (scoring_loop e n_results mn pool init_state) =
           length (completions (scoring_loop e n_results mn pool init_state))"
proof -
  have init: "int (length (matched_jobs init_state)) \<le> n_results"
    using assms by (simp add: init_state_def)
  have a: "\<forall>st \<in> set (init_state # scoring_states e n_results mn pool init_state).
            int (length (matched_jobs st)) \<le> n_results"
    using init scoring_states_matched_le [OF init, of e mn pool] by simp
  have c: "\<forall>pre rest. pool = pre @ rest \<longrightarrow>
             int (length (matched_jobs (scoring_loop e n_results mn pre init_state))) = n_results \<longrightarrow>
             scoring_loop e n_results mn pool init_state = scoring_loop e n_results mn pre init_state"
    by (auto simp: scoring_loop_early_stop)
  obtain d where d: "completions (scoring_loop e n_results mn pool init_state) = completions init_state @ d"
      "prefix d pool"
      "jobs_checked (scoring_loop e n_results mn pool init_state) = jobs_checked init_state + length d"
    using scoring_loop_completions [of e n_results mn pool init_state] by blast
  then have p: "prefix (completions (scoring_loop e n_results mn pool init_state)) pool"
    and j: "jobs_checked (scoring_loop e n_results mn pool init_state) =
           length (completions (scoring_loop e n_results mn pool init_state))"
    by (simp_all add: init_state_def)
  from p have l: "length (completions (scoring_loop e n_results mn pool init_state)) \<le> length pool"
    by (rule prefix_length_le)
  from a c p l j show ?thesis
    using scoring_loop_last [of e n_results mn pool init_state] by blast
qed

theorem early_stop_bound_witness:
  "(0::int) \<le> 1
   \<and> [job_a, job_b] = [job_a] @ [job_b]
   \<and> int (length (matched_jobs (scoring_loop env_ex 1 (3/5) [job_a] init_state))) = 1
   \<and> scoring_loop env_ex 1 (3/5) [job_a, job_b] init_state = scoring_loop env_ex 1 (3/5) [job_a] init_state
   \<and> completions (scoring_loop env_ex 1 (3/5) [job_a, job_b] init_state) = [job_a]"
proof -
  have h: "(0::int) \<le> 1" by simp
  have l: "int (length (matched_jobs (scoring_loop env_ex 1 (3/5) [job_a] init_state))) = 1"
    by (simp only: loop_a) simp
  note t = early_stop_bound [OF h, of env_ex "3/5" "[job_a, job_b]"]
  from t l have eq: "scoring_loop env_ex 1 (3/5) [job_a, job_b] init_state =
      scoring_loop env_ex 1 (3/5) [job_a] init_state"
    by (metis append_Cons append_Nil)
  have c: "completions (scoring_loop env_ex 1 (3/5) [job_a, job_b] init_state) = [job_a]"
    by (simp only: eq loop_a) simp
  from h l eq c show ?thesis by simp
qed

subsection \<open>Discovery order\<close>

lemma ranked_sections_enumerate:
  "ranked_sections r ms =
     map (\<lambda>(i, (s, jd, sec)). re_sub1 job_header_sub (job_label i) sec) (enumerate r ms)"
  by (induction ms arbitrary: r) auto

lemma process_valid:
  "ctx_resume_text c = Some resume_text \<Longrightarrow>
   process e query (Some c) =
     process_body e resume_text
       (case ctx_n_results c of Some n \<Rightarrow> n | None \<Rightarrow> 5)
       (case ctx_min_match_score c of Some v \<Rightarrow> v | None \<Rightarrow> MIN_JOB_MATCH_SCORE)"
  by (simp add: process_def has_key_def is_empty_dict_def)

lemma process_body_matched:
  assumes "total_jobs e = Inr t" "0 < t"
    and "retrieve_jobs e (extract_key_resume_info e resume_text) (max_candidates t) = Inr all_job_results"
    and "all_job_results \<noteq> []"
    and "matched_jobs (scoring_loop e n mn (pre_filter all_job_results) init_state) \<noteq> []"
  shows "fst (process_body e resume_text n mn) =
           final_response e mn (matched_jobs (scoring_loop e n mn (pre_filter all_job_results) init_state))"
  using assms by (simp add: process_body_def Let_def)

text \<open>
  Claim C2. The accepted matches are the first \<open>n_results\<close> candidates of the pool, in pool
  order, whose parsed score reaches the threshold (\<open>accept\<close>): they are never sorted by
  score, and their jobs are a subsequence of the pool. The response keeps that order:
  \<open>ranked_sections\<close> maps the \<open>k\<close>-th accepted match to the \<open>k\<close>-th section, the final
  response is the header line followed by these sections in that order, and for a context
  with a resume, a corpus that is not empty, a retrieval that returns jobs and at least one
  accepted match, the text that \<open>process\<close> returns is the header line followed by the
  sections of the first \<open>n_results\<close> accepted candidates in pool order. With \<open>job_a\<close>
  scored 70% before \<open>job_b\<close> scored 90%, both above the threshold 0.6, and
  \<open>n_results = 1\<close>, the match returned is \<open>job_a\<close>, and \<open>job_b\<close> is never sent to the
  model; with \<open>n_results = 2\<close> the section of \<open>job_a\<close> is returned before that of \<open>job_b\<close>.
\<close>

theorem discovery_order:
  "matched_jobs (scoring_loop e n_results mn pool init_state) =
     take (nat n_results) (List.map_filter (\<lambda>(i, j). accept e mn i j) (enumerate 0 pool))
   \<and> subseq (map (\<lambda>(s, jd, sec). jd) (matched_jobs (scoring_loop e n_results mn pool init_state))) pool
   \<and> ranked_sections r ms =
       map (\<lambda>(i, (s, jd, sec)). re_sub1 job_header_sub (job_label i) sec) (enumerate r ms)
   \<and> final_response e mn ms =
       matches_header e mn (length ms) @
       concat (map (\<lambda>(i, (s, jd, sec)). re_sub1 job_header_sub (job_label i) sec) (enumerate 1 ms))
   \<and> (ctx_resume_text c = Some resume_text \<longrightarrow>
      n_results = (case ctx_n_results c of Some n \<Rightarrow> n | None \<Rightarrow> 5) \<longrightarrow>
      mn = (case ctx_min_match_score c of Some v \<Rightarrow> v | None \<Rightarrow> MIN_JOB_MATCH_SCORE) \<longrightarrow>
      total_jobs e = Inr t \<longrightarrow> 0 < t \<longrightarrow>
      retrieve_jobs e (extract_key_resume_info e resume_text) (max_candidates t) =
        Inr all_job_results \<longrightarrow>
      all_job_results \<noteq> [] \<longrightarrow>
      pool = pre_filter all_job_results \<longrightarrow>
      take (nat n_results) (List.map_filter (\<lambda>(i, j). accept e mn i j) (enumerate 0 pool)) \<noteq> [] \<longrightarrow>
      fst (process e query (Some c)) =
        matches_header e mn
          (length (take (nat n_results)
             (List.map_filter (\<lambda>(i, j). accept e mn i j) (enumerate 0 pool)))) @
        concat (map (\<lambda>(i, (s, jd, sec)). re_sub1 job_header_sub (job_label i) sec)
          (enumerate 1 (take (nat n_results)
             (List.map_filter (\<lambda>(i, j). accept e mn i j) (enumerate 0 pool))))))
   \<and> accept env_ex (3/5) 0 job_a = Some (7/10, job_a, '' Backend Engineer\<newline>**Overall Match Score:** 70%'')
   \<and> accept env_ex (3/5) 1 job_b = Some (9/10, job_b, '' Data Engineer\<newline>**Overall Match Score:** 90%'')
   \<and> matched_jobs (scoring_loop env_ex 1 (3/5) [job_a, job_b] init_state) =
       [(7/10, job_a, '' Backend Engineer\<newline>**Overall Match Score:** 70%'')]
   \<and> process env_ex ''find jobs'' (Some ctx_ex) =
       (''## '' @ direct_hit @ '' 1 Job Matches Found (First 1 Above 60% Threshold)\<newline>\<newline>'' @
        '' Backend Engineer\<newline>**Overall Match Score:** 70%'',
        [Stats_call, Retrieval_call ''Python developer, five years'' 2, Completion_call job_a])
   \<and> fst (process env_ex ''find jobs'' (Some ctx_two)) =
       ''## '' @ direct_hit @ '' 2 Job Matches Found (First 2 Above 60% Threshold)\<newline>\<newline>'' @
       '' Backend Engineer\<newline>**Overall Match Score:** 70%'' @
       '' Data Engineer\<newline>**Overall Match Score:** 90%''"
proof -
  have m: "matched_jobs (scoring_loop e n_results mn pool init_state) =
     take (nat n_results) (List.map_filter (\<lambda>(i, j). accept e mn i j) (enumerate 0 pool))"
    for e n_results mn pool
    using scoring_loop_matched [of e n_results mn pool init_state] by (simp add: init_state_def)
  have "subseq (take (nat n_results) (map (\<lambda>(s, jd, sec). jd)
           (List.map_filter (\<lambda>(i, j). accept e mn i j) (enumerate 0 pool)))) pool"
    by (rule subseq_order.order_trans [OF sublist_imp_subseq [OF sublist_take] subseq_accepted])
  then have s: "subseq (map (\<lambda>(s, jd, sec). jd) (matched_jobs (scoring_loop e n_results mn pool init_state))) pool"
    by (simp add: m take_map)
  have rs: "ranked_sections r ms =
       map (\<lambda>(i, (s, jd, sec)). re_sub1 job_header_sub (job_label i) sec) (enumerate r ms)"
    by (rule ranked_sections_enumerate)
  have fr: "final_response e mn ms =
       matches_header e mn (length ms) @
       concat (map (\<lambda>(i, (s, jd, sec)). re_sub1 job_header_sub (job_label i) sec) (enumerate 1 ms))"
    for ms
    by (simp add: final_response_def ranked_sections_enumerate)
  have pr: "ctx_resume_text c = Some resume_text \<longrightarrow>
      n_results = (case ctx_n_results c of Some n \<Rightarrow> n | None \<Rightarrow> 5) \<longrightarrow>
      mn = (case ctx_min_match_score c of Some v \<Rightarrow> v | None \<Rightarrow> MIN_JOB_MATCH_SCORE) \<longrightarrow>
      total_jobs e = Inr t \<longrightarrow> 0 < t \<longrightarrow>
      retrieve_jobs e (extract_key_resume_info e resume_text) (max_candidates t) =
        Inr all_job_results \<longrightarrow>
      all_job_results \<noteq> [] \<longrightarrow>
      pool = pre_filter all_job_results \<longrightarrow>
      take (nat n_results) (List.map_filter (\<lambda>(i, j). accept e mn i j) (enumerate 0 pool)) \<noteq> [] \<longrightarrow>
      fst (process e query (Some c)) =
        matches_header e mn
          (length (take (nat n_results)
             (List.map_filter (\<lambda>(i, j). accept e mn i j) (enumerate 0 pool)))) @
        concat (map (\<lambda>(i, (s, jd, sec)). re_sub1 job_header_sub (job_label i) sec)
          (enumerate 1 (take (nat n_results)
             (List.map_filter (\<lambda>(i, j). accept e mn i j) (enumerate 0 pool)))))"
  proof (intro impI)
    assume c: "ctx_resume_text c = Some resume_text"
      and n: "n_results = (case ctx_n_results c of Some n \<Rightarrow> n | None \<Rightarrow> 5)"
      and v: "mn = (case ctx_min_match_score c of Some v \<Rightarrow> v | None \<Rightarrow> MIN_JOB_MATCH_SCORE)"
      and t: "total_jobs e = Inr t" "0 < t"
      and a: "retrieve_jobs e (extract_key_resume_info e resume_text) (max_candidates t) =
                Inr all_job_results" "all_job_results \<noteq> []"
      and p: "pool = pre_filter all_job_results"
      and ne: "take (nat n_results) (List.map_filter (\<lambda>(i, j). accept e mn i j) (enumerate 0 pool)) \<noteq> []"
    from ne p have ne': "matched_jobs (scoring_loop e n_results mn (pre_filter all_job_results) init_state) \<noteq> []"
      by (simp only: m) simp
    have "fst (process e query (Some c)) = fst (process_body e resume_text n_results mn)"
      by (simp only: process_valid [OF c] n v)
    also have "\<dots> = final_response e mn
        (matched_jobs (scoring_loop e n_results mn (pre_filter all_job_results) init_state))"
      using t a ne' by (rule process_body_matched)
    finally show "fst (process e query (Some c)) =
        matches_header e mn
          (length (take (nat n_results)
             (List.map_filter (\<lambda>(i, j). accept e mn i j) (enumerate 0 pool)))) @
        concat (map (\<lambda>(i, (s, jd, sec)). re_sub1 job_header_sub (job_label i) sec)
          (enumerate 1 (take (nat n_results)
             (List.map_filter (\<lambda>(i, j). accept e mn i j) (enumerate 0 pool)))))"
      by (simp only: fr m p)
  qed
  have a: "accept env_ex (3/5) 0 job_a = Some (7/10, job_a, '' Backend Engineer\<newline>**Overall Match Score:** 70%'')"
    by (rule accept_job_a)
  have b: "accept env_ex (3/5) 1 job_b = Some (9/10, job_b, '' Data Engineer\<newline>**Overall Match Score:** 90%'')"
    by (rule accept_job_b)
  have x: "matched_jobs (scoring_loop env_ex 1 (3/5) [job_a, job_b] init_state) =
       [(7/10, job_a, '' Backend Engineer\<newline>**Overall Match Score:** 70%'')]"
    by (rule matched_ex_1)
  have p1: "process env_ex ''find jobs'' (Some ctx_ex) =
       (''## '' @ direct_hit @ '' 1 Job Matches Found (First 1 Above 60% Threshold)\<newline>\<newline>'' @
        '' Backend Engineer\<newline>**Overall Match Score:** 70%'',
        [Stats_call, Retrieval_call ''Python developer, five years'' 2, Completion_call job_a])"
    by (rule process_ex_1)
  have p2: "fst (process env_ex ''find jobs'' (Some ctx_two)) =
       ''## '' @ direct_hit @ '' 2 Job Matches Found (First 2 Above 60% Threshold)\<newline>\<newline>'' @
       '' Backend Engineer\<newline>**Overall Match Score:** 70%'' @
       '' Data Engineer\<newline>**Overall Match Score:** 90%''"
    by (simp only: process_ex_2 fst_conv)
  from m [of e n_results mn pool] s rs fr [of ms] pr a b x p1 p2 show ?thesis by blast
qed

theorem discovery_order_witness:
  "ctx_resume_text ctx_ex = Some ''Python developer, five years''
   \<and> (1 :: int) = (case ctx_n_results ctx_ex of Some n \<Rightarrow> n | None \<Rightarrow> 5)
   \<and> (3/5 :: real) = (case ctx_min_match_score ctx_ex of Some v \<Rightarrow> v | None \<Rightarrow> MIN_JOB_MATCH_SCORE)
   \<and> total_jobs env_ex = Inr 2
   \<and> retrieve_jobs env_ex (extract_key_resume_info env_ex ''Python developer, five years'')
       (max_candidates 2) = Inr [job_a, job_b]
   \<and> [job_a, job_b] = pre_filter [job_a, job_b]
   \<and> take (nat 1) (List.map_filter (\<lambda>(i, j). accept env_ex (3/5) i j) (enumerate 0 [job_a, job_b])) =
       [(7/10, job_a, '' Backend Engineer\<newline>**Overall Match Score:** 70%'')]
   \<and> fst (process env_ex ''find jobs'' (Some ctx_ex)) =
       matches_header env_ex (3/5) 1 @ '' Backend Engineer\<newline>**Overall Match Score:** 70%''"
proof -
  have c: "ctx_resume_text ctx_ex = Some ''Python developer, five years''"
    and n: "(1 :: int) = (case ctx_n_results ctx_ex of Some n \<Rightarrow> n | None \<Rightarrow> 5)"
    and v: "(3/5 :: real) = (case ctx_min_match_score ctx_ex of Some v \<Rightarrow> v | None \<Rightarrow> MIN_JOB_MATCH_SCORE)"
    by (simp_all add: ctx_ex_def MIN_JOB_MATCH_SCORE_def)
  have t: "total_jobs env_ex = Inr 2" by (simp add: env_ex_def)
  have r: "retrieve_jobs env_ex (extract_key_resume_info env_ex ''Python developer, five years'')
       (max_candidates 2) = Inr [job_a, job_b]"
    by (simp add: max_candidates_def retrieve_ex)
  have f: "[job_a, job_b] = pre_filter [job_a, job_b]" by (simp add: pre_filter_ex)
  have k: "take (nat 1) (List.map_filter (\<lambda>(i, j). accept env_ex (3/5) i j) (enumerate 0 [job_a, job_b])) =
       [(7/10, job_a, '' Backend Engineer\<newline>**Overall Match Score:** 70%'')]"
    by (simp add: List.map_filter_simps accept_job_a accept_job_b)
  note d = discovery_order [of env_ex 1 "3/5" "[job_a, job_b]" 1 "[]" ctx_ex
      "''Python developer, five years''" 2 "[job_a, job_b]" "''find jobs''"]
  note i = d [THEN conjunct2, THEN conjunct2, THEN conjunct2, THEN conjunct2, THEN conjunct1]
  have z: "(0 :: nat) < 2" and ne: "[job_a, job_b] \<noteq> []" by simp_all
  from k have k': "take (nat 1) (List.map_filter (\<lambda>(i, j). accept env_ex (3/5) i j)
      (enumerate 0 [job_a, job_b])) \<noteq> []" by (simp only:) simp
  note h = i [rule_format, OF c n v t z r ne f k']
  have "fst (process env_ex ''find jobs'' (Some ctx_ex)) =
       matches_header env_ex (3/5) 1 @ '' Backend Engineer\<newline>**Overall Match Score:** 70%''"
    by (simp only: h k) (simp add: no_label_to_replace)
  with c n v t r f k show ?thesis by simp
qed

subsection \<open>The pre-filter\<close>

lemma format_jobs_similarity:
  "j \<in> set (format_jobs i rows) \<Longrightarrow> similarity_score j = Some (1 - distance j)"
  by (induction i rows rule: format_jobs.induct) auto

text \<open>
  Claim C4. The pre-filter removes exactly the candidates whose similarity score, as
  \<open>process\<close> reads it, is strictly less than 0.35, and keeps the others in their order: a
  candidate with similarity score 0.35 is kept, one with 0.3499 is dropped. (Every job that
  \<open>retrieve_jobs\<close> returns has a similarity score, by \<open>format_jobs_similarity\<close>; the
  default 0 of \<open>job.get\<close> is for a job without one.)
\<close>

theorem pre_filter_threshold:
  "pre_filter all_job_results = filter (\<lambda>j. \<not> get_similarity_score j < 35/100) all_job_results
   \<and> subseq (pre_filter all_job_results) all_job_results
   \<and> get_similarity_score (j\<lparr>similarity_score := Some v\<rparr>) = v
   \<and> pre_filter [j\<lparr>similarity_score := Some (35/100)\<rparr>] = [j\<lparr>similarity_score := Some (35/100)\<rparr>]
   \<and> pre_filter [j\<lparr>similarity_score := Some (3499/10000)\<rparr>] = []"
  by (simp add: pre_filter_def get_similarity_score_def min_semantic_similarity_def not_less)

subsection \<open>The empty corpus\<close>

text \<open>
  Claim C3. When the corpus reports zero jobs, \<open>process\<close> (called with a context that
  holds the resume) returns the "no jobs in the database" message after the statistics
  call alone: no retrieval call and no completion call is made. That message differs from
  every "no jobs above threshold" message, which is what the call returns when candidates
  were retrieved and none was accepted (\<open>below_threshold_outcome\<close>).
\<close>

theorem empty_corpus:
  assumes "validate_context ctx [''resume_text'']" and "total_jobs e = Inr 0"
  shows "process e query ctx = (no_jobs_in_database, [Stats_call])
       \<and> no_jobs_in_database \<noteq> no_jobs_above_threshold e' min_match_score checked retrieved"
proof -
  from assms(1) obtain c r where c: "ctx = Some c" "ctx_resume_text c = Some r"
    by (cases ctx) (auto simp: has_key_def is_empty_dict_def split: if_splits)
  with assms have "process e query ctx = (no_jobs_in_database, [Stats_call])"
    by (simp add: process_def process_body_def)
  moreover have "no_jobs_in_database \<noteq> no_jobs_above_threshold e' min_match_score checked retrieved"
    by (simp add: no_jobs_in_database_def no_jobs_above_threshold_def)
  ultimately show ?thesis by simp
qed

theorem empty_corpus_witness:
  "validate_context (Some ctx_ex) [''resume_text'']
   \<and> total_jobs env_empty = Inr 0
   \<and> process env_empty ''find jobs'' (Some ctx_ex) = (no_jobs_in_database, [Stats_call])
   \<and> no_jobs_in_database \<noteq> no_jobs_above_threshold env_ex (3/5) 2 2"
proof -
  have v: "validate_context (Some ctx_ex) [''resume_text'']"
    by (simp add: ctx_ex_def has_key_def is_empty_dict_def)
  have t: "total_jobs env_empty = Inr 0"
    by (simp add: env_empty_def)
  from empty_corpus [OF v t, of "''find jobs''" env_ex "3/5" 2 2] v t show ?thesis by simp
qed

lemma below_threshold_outcome:
  assumes "total_jobs e = Inr n" "0 < n"
    and "retrieve_jobs e (extract_key_resume_info e resume) (max_candidates n) = Inr all_job_results"
    and "all_job_results \<noteq> []"
    and "matched_jobs (scoring_loop e n_results mn (pre_filter all_job_results) init_state) = []"
  shows "fst (process_body e resume n_results mn) =
           no_jobs_above_threshold e mn
             (jobs_checked (scoring_loop e n_results mn (pre_filter all_job_results) init_state))
             (length all_job_results)"
  using assms by (simp add: process_body_def Let_def)

subsection \<open>The context\<close>

text \<open>
  Claim C10. For a non-empty list of required keys, as \<open>process\<close> has it, the validation
  passes if and only if the context is a dictionary that contains every required key.
  When the context is \<open>None\<close>, empty, or lacks the key \<open>resume_text\<close>, \<open>process\<close> returns
  the formatted request for the resume and calls none of its collaborators.
\<close>

theorem missing_resume:
  "(required_keys \<noteq> [] \<longrightarrow>
      (validate_context ctx required_keys \<longleftrightarrow>
         (\<exists>c. ctx = Some c \<and> (\<forall>key \<in> set required_keys. has_key c key))))
   \<and> (validate_context ctx [''resume_text''] \<longleftrightarrow> (\<exists>c. ctx = Some c \<and> has_key c ''resume_text''))
   \<and> ((ctx = None \<or> (\<exists>c. ctx = Some c \<and> (is_empty_dict c \<or> \<not> has_key c ''resume_text''))) \<longrightarrow>
        process e query ctx =
          (format_error_response ''Please provide your resume to find matching jobs.'', []))"
proof -
  have empty: "\<And>c key. is_empty_dict c \<Longrightarrow> \<not> has_key c key"
    by (simp add: is_empty_dict_def has_key_def)
  have a: "required_keys \<noteq> [] \<longrightarrow>
      (validate_context ctx required_keys \<longleftrightarrow>
         (\<exists>c. ctx = Some c \<and> (\<forall>key \<in> set required_keys. has_key c key)))"
  proof (cases ctx)
    case None
    then show ?thesis by simp
  next
    case (Some c)
    show ?thesis
    proof (cases "is_empty_dict c")
      case True
      with Some empty [of c] show ?thesis by (cases required_keys) auto
    next
      case False
      with Some show ?thesis by (auto simp: filter_empty_conv)
    qed
  qed
  have b: "validate_context ctx [''resume_text''] \<longleftrightarrow> (\<exists>c. ctx = Some c \<and> has_key c ''resume_text'')"
    by (cases ctx) (auto simp: empty)
  have c: "(ctx = None \<or> (\<exists>c. ctx = Some c \<and> (is_empty_dict c \<or> \<not> has_key c ''resume_text''))) \<longrightarrow>
        process e query ctx =
          (format_error_response ''Please provide your resume to find matching jobs.'', [])"
    by (cases ctx) (auto simp: process_def empty)
  from a b c show ?thesis by blast
qed

theorem missing_resume_witness:
  "process env_ex ''find jobs'' None =
     (format_error_response ''Please provide your resume to find matching jobs.'', [])
   \<and> is_empty_dict ctx_empty
   \<and> process env_ex ''find jobs'' (Some ctx_empty) =
     (format_error_response ''Please provide your resume to find matching jobs.'', [])
   \<and> \<not> has_key (ctx_ex\<lparr>ctx_resume_text := None\<rparr>) ''resume_text''
   \<and> process env_ex ''find jobs'' (Some (ctx_ex\<lparr>ctx_resume_text := None\<rparr>)) =
     (format_error_response ''Please provide your resume to find matching jobs.'', [])
   \<and> has_key ctx_ex ''resume_text''
   \<and> validate_context (Some ctx_ex) [''resume_text'']"
proof -
  have e: "is_empty_dict ctx_empty"
    by (simp add: is_empty_dict_def ctx_empty_def)
  have n: "\<not> has_key (ctx_ex\<lparr>ctx_resume_text := None\<rparr>) ''resume_text''"
    by (simp add: has_key_def)
  have h: "has_key ctx_ex ''resume_text''"
    by (simp add: has_key_def ctx_ex_def)
  have p1: "process env_ex ''find jobs'' None =
     (format_error_response ''Please provide your resume to find matching jobs.'', [])"
    using missing_resume [of "[''resume_text'']" None env_ex "''find jobs''"] by blast
  have p2: "process env_ex ''find jobs'' (Some ctx_empty) =
     (format_error_response ''Please provide your resume to find matching jobs.'', [])"
    using missing_resume [of "[''resume_text'']" "Some ctx_empty" env_ex "''find jobs''"] e by blast
  have p3: "process env_ex ''find jobs'' (Some (ctx_ex\<lparr>ctx_resume_text := None\<rparr>)) =
     (format_error_response ''Please provide your resume to find matching jobs.'', [])"
    using missing_resume [of "[''resume_text'']" "Some (ctx_ex\<lparr>ctx_resume_text := None\<rparr>)" env_ex
        "''find jobs''"] n by blast
  have p4: "validate_context (Some ctx_ex) [''resume_text'']"
    using missing_resume [of "[''resume_text'']" "Some ctx_ex" env_ex "''find jobs''"] h by blast
  from p1 e p2 n p3 h p4 show ?thesis by blast
qed

subsection \<open>The matcher on a text and on its parts\<close>











lemma m_plus_suffix:
  "m_plus a c s k = Some v \<Longrightarrow> \<exists>c' r pre. s = pre @ r \<and> k c' r = Some v"
proof (induction s)
  case Nil
  then show ?case by simp
next
  case (Cons x xs)
  show ?case
  proof (cases "m_plus a c xs k")
    case None
    with Cons.prems have "k c xs = Some v" by (simp split: if_splits)
    moreover have "x # xs = [x] @ xs" by simp
    ultimately show ?thesis by blast
  next
    case (Some w)
    with Cons.prems have "m_plus a c xs k = Some v" by (simp split: if_splits)
    from Cons.IH [OF this] obtain c' r pre where "xs = pre @ r" "k c' r = Some v" by blast
    then have "x # xs = (x # pre) @ r" "k c' r = Some v" by simp_all
    then show ?thesis by blast
  qed
qed

lemma m_suffix:
  "m p c s k = Some v \<Longrightarrow> \<exists>c' r pre. s = pre @ r \<and> k c' r = Some v"
proof (induction p arbitrary: c s k)
  case Eps
  then have "s = [] @ s" "k c s = Some v" by simp_all
  then show ?case by blast
next
  case (Atom a)
  then obtain x xs where "s = [x] @ xs" "k c xs = Some v"
    by (cases s) (auto split: if_splits)
  then show ?case by blast
next
  case (Seq p q)
  from Seq.prems have "m p c s (\<lambda>c1 r. m q c1 r k) = Some v" by simp
  from Seq.IH(1) [OF this] obtain c1 r1 pre1 where 1: "s = pre1 @ r1" "m q c1 r1 k = Some v"
    by blast
  from Seq.IH(2) [OF 1(2)] obtain c2 r2 pre2 where 2: "r1 = pre2 @ r2" "k c2 r2 = Some v"
    by blast
  from 1(1) 2 have "s = (pre1 @ pre2) @ r2" "k c2 r2 = Some v" by simp_all
  then show ?case by blast
next
  case (Opt p)
  show ?case
  proof (cases "m p c s k")
    case None
    with Opt.prems have "s = [] @ s" "k c s = Some v" by simp_all
    then show ?thesis by blast
  next
    case (Some w)
    with Opt.prems have "m p c s k = Some v" by simp
    from Opt.IH [OF this] show ?thesis .
  qed
next
  case (Plus a)
  then have "m_plus a c s k = Some v" by simp
  then show ?case by (rule m_plus_suffix)
next
  case (Star a)
  show ?case
  proof (cases "m_plus a c s k")
    case None
    with Star.prems have "s = [] @ s" "k c s = Some v" by simp_all
    then show ?thesis by blast
  next
    case (Some w)
    with Star.prems have "m_plus a c s k = Some v" by simp
    then show ?thesis by (rule m_plus_suffix)
  qed
next
  case (Cap p)
  from Cap.prems have "m p c s (\<lambda>_ r. k (Some (take (length s - length r) s)) r) = Some v"
    by simp
  from Cap.IH [OF this] show ?case by blast
qed




text \<open>A match of a job header takes at least one character, so that \<open>re_split\<close> always
  goes on with a shorter text.\<close>

lemma m_atom_first:
  assumes "m (Seq (Atom a) q) c s k = Some v"
  shows "\<exists>c' r pre. s = pre @ r \<and> pre \<noteq> [] \<and> k c' r = Some v"
proof -
  from assms obtain x xs where s: "s = x # xs" and q: "m q c xs k = Some v"
    by (cases s) (auto split: if_splits)
  from m_suffix [OF q] obtain c' r pre where "xs = pre @ r" "k c' r = Some v" by blast
  with s have "s = (x # pre) @ r" "x # pre \<noteq> []" "k c' r = Some v" by simp_all
  then show ?thesis by blast
qed

lemma match_here_shorter:
  assumes "match_here (Seq (Seq (Atom a) p) q) s = Some (c, r)"
  shows "length r < length s"
proof -
  from assms have "m (Seq (Atom a) p) None s (\<lambda>c' r'. m q c' r' (\<lambda>c r. Some (c, r))) = Some (c, r)"
    by (simp add: match_here_def)
  from m_atom_first [OF this] obtain c1 r1 pre1 where
    1: "s = pre1 @ r1" "pre1 \<noteq> []" "m q c1 r1 (\<lambda>c r. Some (c, r)) = Some (c, r)" by blast
  from m_suffix [OF 1(3)] obtain pre2 where "r1 = pre2 @ r" by auto
  with 1 show ?thesis by (cases pre1) simp_all
qed

lemma re_search_shorter:
  assumes "re_search (Seq (Seq (Atom a) p) q) s = Some (pre, c, r)"
  shows "length r < length s"
  using assms
proof (induction s arbitrary: pre)
  case Nil
  then have "match_here (Seq (Seq (Atom a) p) q) [] = Some (c, r)" by (auto split: option.splits)
  from match_here_shorter [OF this] show ?case .
next
  case (Cons x xs)
  show ?case
  proof (cases "match_here (Seq (Seq (Atom a) p) q) (x # xs)")
    case (Some v)
    with Cons.prems have "match_here (Seq (Seq (Atom a) p) q) (x # xs) = Some (c, r)" by auto
    from match_here_shorter [OF this] show ?thesis .
  next
    case None
    with Cons.prems obtain pre' where "re_search (Seq (Seq (Atom a) p) q) xs = Some (pre', c, r)"
      by (auto split: option.splits)
    from Cons.IH [OF this] show ?thesis by simp
  qed
qed

lemma re_search_header_shorter:
  "re_search job_header_split s = Some (pre, c, r) \<Longrightarrow> length r < length s"
  "re_search job_header_sub s = Some (pre, c, r) \<Longrightarrow> length r < length s"
  unfolding job_header_split_def job_header_sub_def
  by (simp_all only: seqs_def lit_def foldr.simps o_apply id_apply) (erule re_search_shorter)+





subsection \<open>The range of a stored score\<close>










subsection \<open>A response without a score\<close>










subsection \<open>Decimal numerals\<close>

lemma digit_cases:
  assumes "d < (10::nat)"
  obtains "d = 0" | "d = 1" | "d = 2" | "d = 3" | "d = 4" | "d = 5" | "d = 6" | "d = 7"
    | "d = 8" | "d = 9"
  using assms by atomize_elim arith

lemma digit_char_props:
  assumes "d < 10"
  shows "is_digit (digit_char d)" and "digit_val (digit_char d) = d"
  using assms by (cases d rule: digit_cases; simp add: digit_char_def is_digit_def digit_val_def)+

lemma str_nat_digits: "str_nat n \<noteq> [] \<and> list_all is_digit (str_nat n)"
proof (induction n rule: str_nat.induct)
  case (1 n)
  show ?case
  proof (cases "n < 10")
    case True
    then show ?thesis by (subst (1 2) str_nat.simps) (simp add: digit_char_props)
  next
    case False
    with "1.IH" show ?thesis
      by (subst (1 2) str_nat.simps) (simp add: digit_char_props)
  qed
qed

lemma digits_val_snoc: "digits_val (xs @ [c]) = 10 * digits_val xs + digit_val c"
  by (simp add: digits_val_def)

lemma digits_val_str_nat: "digits_val (str_nat n) = n"
proof (induction n rule: str_nat.induct)
  case (1 n)
  show ?case
  proof (cases "n < 10")
    case True
    then show ?thesis
      by (subst str_nat.simps) (simp add: digit_char_props digits_val_def)
  next
    case False
    with "1.IH" show ?thesis
      by (subst str_nat.simps) (simp add: digits_val_snoc digit_char_props)
  qed
qed

lemma py_float_str_nat: "py_float (str_nat n) = Some (real n)"
proof -
  from str_nat_digits [of n] have ne: "str_nat n \<noteq> []" and all: "\<forall>x \<in> set (str_nat n). is_digit x"
    by (simp_all add: list_all_iff)
  have tw: "takeWhile is_digit (str_nat n) = str_nat n"
    using all by simp
  have dw: "dropWhile is_digit (str_nat n) = []"
    using all by simp
  show ?thesis
    by (simp only: py_float_def tw dw Let_def) (simp add: ne digits_val_str_nat)
qed

subsection \<open>Digits against the characters of the patterns\<close>

lemma digit_code: "is_digit x \<Longrightarrow> ascii_lower x = of_char x \<and> 48 \<le> (of_char x :: nat) \<and> (of_char x :: nat) \<le> 57"
  by (auto simp: is_digit_def ascii_lower_def)

lemma digit_not_space: "is_digit x \<Longrightarrow> \<not> is_space x"
  by (auto simp: is_digit_def is_space_def)

lemma digit_not_other:
  "is_digit x \<Longrightarrow> ascii_lower c < 48 \<or> 57 < ascii_lower c \<Longrightarrow> \<not> cc_ok (Is c) x"
  using digit_code [of x] by auto


subsection \<open>The greedy repetition on a run of characters\<close>

lemma m_plus_none:
  "(case s of [] \<Rightarrow> True | x # _ \<Rightarrow> \<not> cc_ok a x) \<Longrightarrow> m_plus a c s k = None"
  by (cases s) auto

lemma m_plus_all:
  assumes "xs \<noteq> []" and "\<forall>x \<in> set xs. cc_ok a x"
    and "(case rest of [] \<Rightarrow> True | y # _ \<Rightarrow> \<not> cc_ok a y)"
    and "k c rest \<noteq> None"
  shows "m_plus a c (xs @ rest) k = k c rest"
  using assms(1,2)
proof (induction xs)
  case Nil
  then show ?case by simp
next
  case (Cons x xs)
  show ?case
  proof (cases "xs = []")
    case True
    with Cons.prems assms(3) show ?thesis by (simp add: m_plus_none)
  next
    case False
    with Cons have "m_plus a c (xs @ rest) k = k c rest" by simp
    with Cons.prems assms(4) show ?thesis by auto
  qed
qed

lemma str_nat_all: "\<forall>x \<in> set (str_nat n). is_digit x" and str_nat_ne: "str_nat n \<noteq> []"
  using str_nat_digits [of n] by (simp_all add: list_all_iff)

lemma m_plus_digits_str_nat:
  assumes "\<not> is_digit y" and "k c (y # t) \<noteq> None"
  shows "m_plus Digit c (str_nat n @ y # t) k = k c (y # t)"
  using str_nat_ne str_nat_all assms by (intro m_plus_all) simp_all

lemma m_plus_not_digits:
  assumes "\<And>x. is_digit x \<Longrightarrow> \<not> cc_ok a x"
  shows "m_plus a c (str_nat n @ rest) k = None"
proof -
  obtain x xs where x: "str_nat n = x # xs" using str_nat_ne [of n] by (cases "str_nat n") auto
  with str_nat_all [of n] have "is_digit x" by simp
  with assms x show ?thesis by simp
qed

lemma sep_class_str_nat:
  "m_plus (AnyOf [Is CHR '':'', Space, Is CHR ''*'']) c (str_nat n @ rest) k = None"
  by (rule m_plus_not_digits) (auto simp: digit_not_space dest: digit_code simp: ascii_lower_def)

lemma m_number_str_nat:
  assumes "k (Some (str_nat n)) (CHR ''%'' # t) \<noteq> None"
  shows "m number_group c (str_nat n @ CHR ''%'' # t) k = k (Some (str_nat n)) (CHR ''%'' # t)"
  apply (simp only: number_group_def seqs_def foldr.simps o_apply id_apply m.simps)
  apply (subst m_plus_digits_str_nat)
  using assms apply (simp_all add: is_digit_def ascii_lower_def)
  done

lemma m_number_not_digit:
  "(case s of [] \<Rightarrow> True | x # _ \<Rightarrow> \<not> is_digit x) \<Longrightarrow> m number_group c s k = None"
  by (cases s) (simp_all add: number_group_def seqs_def)

subsection \<open>Searching step by step\<close>

lemma re_search_at:
  "match_here p s = Some (c, r) \<Longrightarrow> re_search p s = Some ([], c, r)"
  by (cases s) simp_all

lemma re_search_step:
  "match_here p (x # xs) = None \<Longrightarrow> re_search p xs = Some (pre, c, r) \<Longrightarrow>
   re_search p (x # xs) = Some (x # pre, c, r)"
  by simp

lemma re_search_step_none:
  "match_here p (x # xs) = None \<Longrightarrow> re_search p xs = None \<Longrightarrow> re_search p (x # xs) = None"
  by simp

lemma re_search_skip:
  assumes "\<forall>x \<in> set xs. \<forall>t. match_here p (x # t) = None" and "re_search p s = None"
  shows "re_search p (xs @ s) = None"
  using assms by (induction xs) simp_all

lemma re_search_skip_str_nat:
  assumes "\<And>x t. is_digit x \<Longrightarrow> match_here p (x # t) = None" and "re_search p s = None"
  shows "re_search p (str_nat n @ s) = None"
  using assms str_nat_all [of n] by (intro re_search_skip) auto

subsection \<open>The job header\<close>

lemma hash_iff: "cc_ok (Is CHR ''#'') x \<longleftrightarrow> x = CHR ''#''"
proof -
  have "(of_char x :: nat) = 35 \<longleftrightarrow> x = CHR ''#''"
    using of_char_eq_iff [of x "CHR ''#''", where ?'a = nat] by simp
  then show ?thesis by (auto simp: ascii_lower_def Let_def)
qed

lemma header_here_none:
  "x \<noteq> CHR ''#'' \<Longrightarrow> match_here job_header_split (x # t) = None"
  "match_here job_header_split [] = None"
  using hash_iff [of x]
  by (simp_all add: job_header_split_def seqs_def lit_def match_here_def del: cc_ok.simps)

lemma header_none: "CHR ''#'' \<notin> set s \<Longrightarrow> re_search job_header_split s = None"
proof (induction s)
  case Nil
  then show ?case by (simp add: header_here_none)
next
  case (Cons x xs)
  then have "x \<noteq> CHR ''#''" and "re_search job_header_split xs = None" by auto
  then show ?case by (simp add: header_here_none)
qed


lemma colon_not_digit: "\<not> is_digit CHR '':''"
  by (simp add: is_digit_def)

lemma header_here:
  "match_here job_header_split (job_label r @ tail) = Some (None, tail)"
  by (simp add: job_label_def job_header_split_def seqs_def lit_def match_here_def
      ascii_lower_def is_space_def colon_not_digit m_plus_digits_str_nat)

lemma split_labelled:
  assumes "CHR ''#'' \<notin> set tail"
  shows "re_split job_header_split (job_label r @ tail) = [[], tail]"
proof -
  have found: "re_search job_header_split (job_label r @ tail) = Some ([], None, tail)"
    using header_here by (rule re_search_at)
  have rest: "re_split job_header_split tail = [tail]"
    using header_none [OF assms] by (simp add: re_split.simps [of job_header_split tail])
  have "length tail < length (job_label r @ tail)"
    by (simp add: job_label_def)
  with found rest show ?thesis
    by (simp add: re_split.simps [of job_header_split "job_label r @ tail"])
qed

lemma parse_labelled:
  assumes "CHR ''#'' \<notin> set tail"
  shows "parse_job_scores_from_response (job_label r @ tail) [j] 1 =
           Inr [(case find_score score_patterns tail of Some v \<Rightarrow> v | None \<Rightarrow> 0, j, tail)]"
  by (simp add: parse_single split_labelled [OF assms])

lemma parse_unlabelled:
  assumes "CHR ''#'' \<notin> set response"
  shows "parse_job_scores_from_response response [j] 1 = Inr []"
  using header_none [OF assms]
  by (simp add: parse_single re_split.simps [of job_header_split response])

lemma no_hash_str_nat: "CHR ''#'' \<notin> set (str_nat n)"
proof
  assume "CHR ''#'' \<in> set (str_nat n)"
  with str_nat_all [of n] have "is_digit CHR ''#''" by blast
  then show False by (simp add: is_digit_def)
qed


subsection \<open>The score patterns on a formatted percentage\<close>

lemma digit_not_letter:
  assumes "is_digit x"
  shows "\<not> cc_ok (Is CHR ''O'') x" "\<not> cc_ok (Is CHR ''M'') x" "\<not> cc_ok (Is CHR ''*'') x"
  using digit_not_other [OF assms] by (simp_all add: ascii_lower_def del: cc_ok.simps)

lemma formats_not_at_digit:
  assumes "is_digit x"
  shows "match_here standard_format (x # t) = None"
    and "match_here markdown_bold_format (x # t) = None"
    and "match_here simple_format (x # t) = None"
  using digit_not_letter [OF assms]
  by (simp_all add: standard_format_def markdown_bold_format_def simple_format_def seqs_def
        lit_def match_here_def del: cc_ok.simps)

lemma formats_not_in_percent_match:
  "re_search standard_format ''% match'' = None"
  "re_search markdown_bold_format ''% match'' = None"
  "re_search simple_format ''% match'' = None"
  by (simp_all add: rx_eval)

lemma formats_not_at_space:
  "match_here standard_format (CHR '' '' # t) = None"
  "match_here markdown_bold_format (CHR '' '' # t) = None"
  "match_here simple_format (CHR '' '' # t) = None"
  "match_here percent_match_format (CHR '' '' # t) = None"
  "match_here standard_format (CHR ''*'' # t) = None"
  by (simp_all add: standard_format_def markdown_bold_format_def simple_format_def
        percent_match_format_def seqs_def lit_def match_here_def ascii_lower_def
        m_number_not_digit is_digit_def)

lemma standard_here:
  "match_here standard_format (''Overall Match Score: '' @ str_nat n @ ''%'') =
     Some (Some (str_nat n), [])"
  "match_here standard_format (''Overall Match Score:** '' @ str_nat n @ ''%'') =
     Some (Some (str_nat n), [])"
  "match_here standard_format (''Match Score: '' @ str_nat n @ ''%'') =
     Some (Some (str_nat n), [])"
  by (simp_all add: standard_format_def seqs_def lit_def match_here_def ascii_lower_def
        is_space_def sep_class_str_nat m_number_str_nat)

lemma percent_match_here:
  "match_here percent_match_format (str_nat n @ ''% match'') = Some (Some (str_nat n), [])"
  by (simp add: percent_match_format_def seqs_def lit_def match_here_def ascii_lower_def
        is_space_def m_number_str_nat)

lemma find_score_found:
  assumes "re_search p sec = Some (pre, Some (str_nat n), r)"
  shows "find_score (p # ps) sec = Some (real n / 100)"
  using assms by (simp add: py_float_str_nat)

lemma find_score_next:
  assumes "re_search p sec = None"
  shows "find_score (p # ps) sec = find_score ps sec"
  using assms by simp

lemma score_overall:
  "find_score score_patterns ('' Overall Match Score: '' @ str_nat n @ ''%'') = Some (real n / 100)"
proof -
  have "re_search standard_format (CHR '' '' # ''Overall Match Score: '' @ str_nat n @ ''%'') =
          Some ([CHR '' ''], Some (str_nat n), [])"
    by (rule re_search_step [OF formats_not_at_space(1) re_search_at [OF standard_here(1)]])
  then show ?thesis
    unfolding score_patterns_def by (intro find_score_found) simp
qed

lemma score_bold:
  "find_score score_patterns ('' **Overall Match Score:** '' @ str_nat n @ ''%'') = Some (real n / 100)"
proof -
  have "re_search standard_format
          (CHR '' '' # CHR ''*'' # CHR ''*'' # ''Overall Match Score:** '' @ str_nat n @ ''%'') =
          Some ([CHR '' '', CHR ''*'', CHR ''*''], Some (str_nat n), [])"
    by (intro re_search_step formats_not_at_space re_search_at standard_here(2))
  then show ?thesis
    unfolding score_patterns_def by (intro find_score_found) simp
qed

lemma score_simple:
  "find_score score_patterns ('' Match Score: '' @ str_nat n @ ''%'') = Some (real n / 100)"
proof -
  have "re_search standard_format (CHR '' '' # ''Match Score: '' @ str_nat n @ ''%'') =
          Some ([CHR '' ''], Some (str_nat n), [])"
    by (rule re_search_step [OF formats_not_at_space(1) re_search_at [OF standard_here(3)]])
  then show ?thesis
    unfolding score_patterns_def by (intro find_score_found) simp
qed

lemma score_percent_match:
  "find_score score_patterns ('' '' @ str_nat n @ ''% match'') = Some (real n / 100)"
proof -
  let ?sec = "CHR '' '' # str_nat n @ ''% match''"
  have 1: "re_search standard_format ?sec = None"
    by (intro re_search_step_none formats_not_at_space re_search_skip_str_nat
          formats_not_at_digit formats_not_in_percent_match)
  have 2: "re_search markdown_bold_format ?sec = None"
    by (intro re_search_step_none formats_not_at_space re_search_skip_str_nat
          formats_not_at_digit formats_not_in_percent_match)
  have 3: "re_search simple_format ?sec = None"
    by (intro re_search_step_none formats_not_at_space re_search_skip_str_nat
          formats_not_at_digit formats_not_in_percent_match)
  have 4: "re_search percent_match_format ?sec = Some ([CHR '' ''], Some (str_nat n), [])"
    by (rule re_search_step [OF formats_not_at_space(4) re_search_at [OF percent_match_here]])
  have "find_score score_patterns ?sec = Some (real n / 100)"
    unfolding score_patterns_def
    by (simp only: find_score_next [OF 1] find_score_next [OF 2] find_score_next [OF 3]
          find_score_found [OF 4])
  then show ?thesis by simp
qed


subsection \<open>The round trip of a formatted score\<close>

text \<open>
  Claim C7, as amended. Let a response be a job header, written as \<open>process\<close> writes
  its labels (\<open>### Job #r:\<close>), followed by one of the supported score patterns formatted
  with the natural number \<open>n\<close>: \<open>Overall Match Score: n%\<close>, the same in bold markup,
  \<open>Match Score: n%\<close> or \<open>n% match\<close>. Then the parse yields exactly \<open>n / 100\<close> for the
  candidate. The same pattern without a job header yields no entry at all: the text before
  the first header is skipped.
\<close>

theorem labelled_score_round_trip:
  "parse_job_scores_from_response (job_label r @ '' Overall Match Score: '' @ str_nat n @ ''%'') [j] 1 =
     Inr [(real n / 100, j, '' Overall Match Score: '' @ str_nat n @ ''%'')]
   \<and> parse_job_scores_from_response (job_label r @ '' **Overall Match Score:** '' @ str_nat n @ ''%'') [j] 1 =
     Inr [(real n / 100, j, '' **Overall Match Score:** '' @ str_nat n @ ''%'')]
   \<and> parse_job_scores_from_response (job_label r @ '' Match Score: '' @ str_nat n @ ''%'') [j] 1 =
     Inr [(real n / 100, j, '' Match Score: '' @ str_nat n @ ''%'')]
   \<and> parse_job_scores_from_response (job_label r @ '' '' @ str_nat n @ ''% match'') [j] 1 =
     Inr [(real n / 100, j, '' '' @ str_nat n @ ''% match'')]
   \<and> parse_job_scores_from_response (''Overall Match Score: '' @ str_nat n @ ''%'') [j] 1 = Inr []
   \<and> parse_job_scores_from_response (''**Overall Match Score:** '' @ str_nat n @ ''%'') [j] 1 = Inr []
   \<and> parse_job_scores_from_response (''Match Score: '' @ str_nat n @ ''%'') [j] 1 = Inr []
   \<and> parse_job_scores_from_response (str_nat n @ ''% match'') [j] 1 = Inr []"
proof -
  have 1: "parse_job_scores_from_response (job_label r @ '' Overall Match Score: '' @ str_nat n @ ''%'') [j] 1 =
     Inr [(real n / 100, j, '' Overall Match Score: '' @ str_nat n @ ''%'')]"
    using parse_labelled [of _ r j] score_overall [of n] by (simp add: no_hash_str_nat)
  have 2: "parse_job_scores_from_response (job_label r @ '' **Overall Match Score:** '' @ str_nat n @ ''%'') [j] 1 =
     Inr [(real n / 100, j, '' **Overall Match Score:** '' @ str_nat n @ ''%'')]"
    using parse_labelled [of _ r j] score_bold [of n] by (simp add: no_hash_str_nat)
  have 3: "parse_job_scores_from_response (job_label r @ '' Match Score: '' @ str_nat n @ ''%'') [j] 1 =
     Inr [(real n / 100, j, '' Match Score: '' @ str_nat n @ ''%'')]"
    using parse_labelled [of _ r j] score_simple [of n] by (simp add: no_hash_str_nat)
  have 4: "parse_job_scores_from_response (job_label r @ '' '' @ str_nat n @ ''% match'') [j] 1 =
     Inr [(real n / 100, j, '' '' @ str_nat n @ ''% match'')]"
    using parse_labelled [of _ r j] score_percent_match [of n] by (simp add: no_hash_str_nat)
  have 5: "parse_job_scores_from_response (''Overall Match Score: '' @ str_nat n @ ''%'') [j] 1 = Inr []"
    by (rule parse_unlabelled) (simp add: no_hash_str_nat)
  have 6: "parse_job_scores_from_response (''**Overall Match Score:** '' @ str_nat n @ ''%'') [j] 1 = Inr []"
    by (rule parse_unlabelled) (simp add: no_hash_str_nat)
  have 7: "parse_job_scores_from_response (''Match Score: '' @ str_nat n @ ''%'') [j] 1 = Inr []"
    by (rule parse_unlabelled) (simp add: no_hash_str_nat)
  have 8: "parse_job_scores_from_response (str_nat n @ ''% match'') [j] 1 = Inr []"
    by (rule parse_unlabelled) (simp add: no_hash_str_nat)
  from 1 2 3 4 5 6 7 8 show ?thesis by blast
qed

text \<open>
  Claim C7 as stated fails: the response \<open>Overall Match Score: 85%\<close>, built by
  formatting the first pattern, yields no score for the candidate.
\<close>

theorem unlabelled_score_lost:
  "parse_job_scores_from_response ''Overall Match Score: 85%'' [job_a] 1 = Inr []"
  by (rule parse_unlabelled) simp

subsection \<open>The labels of the accepted matches\<close>

text \<open>
  Claim C8 says that the final response holds the labels \<open>### Job #1:\<close> to
  \<open>### Job #k:\<close> of the \<open>k\<close> accepted matches. It does not: \<open>re.split\<close> has removed the
  job headers from the sections that \<open>process\<close> stores, so that the \<open>re.sub\<close> which is to
  renumber them finds nothing to replace. With the two jobs of the example accepted, the
  response is the header line followed by the two sections, and holds neither
  \<open>### Job #1:\<close> nor \<open>### Job #2:\<close>.
\<close>

theorem labels_not_written:
  "fst (process env_ex ''find jobs'' (Some ctx_two)) =
     ''## '' @ direct_hit @ '' 2 Job Matches Found (First 2 Above 60% Threshold)\<newline>\<newline>'' @
     '' Backend Engineer\<newline>**Overall Match Score:** 70%'' @
     '' Data Engineer\<newline>**Overall Match Score:** 90%''
   \<and> \<not> contains (job_label 1) (fst (process env_ex ''find jobs'' (Some ctx_two)))
   \<and> \<not> contains (job_label 2) (fst (process env_ex ''find jobs'' (Some ctx_two)))"
  by (simp add: process_ex_2 direct_hit_def job_label_def str_nat.simps digit_char_def)

subsection \<open>A completion call that fails\<close>

text \<open>
  \<open>generate_response\<close> turns a failure of the model into an apology that quotes the
  message of the exception, and the loop parses that text as it parses an answer. When the
  message holds no \<open>#\<close>, the text has no job header and the candidate is skipped:
\<close>

lemma failed_call_skipped:
  assumes "llm_generate e (length (completions st)) j = Inl err"
    and "CHR ''#'' \<notin> set (str_of_exn err)"
    and "int (length (matched_jobs st)) < n_results"
  shows "loop_body e n_results mn j st =
           (Continue, st\<lparr>jobs_checked := jobs_checked st + 1, completions := completions st @ [j]\<rparr>)"
proof -
  have "CHR ''#'' \<notin> set (generate_response e (length (completions st)) j)"
    using assms(1,2) by (simp add: generate_response_def)
  then have "parse_job_scores_from_response (generate_response e (length (completions st)) j) [j] 1 = Inr []"
    by (rule parse_unlabelled)
  then have "accept e mn (length (completions st)) j = None"
    by (simp add: accept_def)
  with assms(3) show ?thesis by (simp add: loop_body_cases)
qed

lemma split_failure:
  "re_split job_header_split
     (''I apologize, but I encountered an error processing your request: '' @ failure_message) =
     [''I apologize, but I encountered an error processing your request: Error generating response from openai: output rejected: '',
      '' Match Score: 90%'']"
  by (simp add: rx_eval failure_message_def)

lemma score_failure: "find_score score_patterns '' Match Score: 90%'' = Some (9/10)"
  by (simp add: rx_eval)

text \<open>
  Claim C6 says that a candidate whose completion call fails is skipped and that no match
  is appended for it. At the input below the call for \<open>job_a\<close> fails, with a message
  that quotes a job section with a score, and \<open>job_a\<close> is accepted with the score 0.9
  read from the message of the exception.
\<close>

theorem failed_call_accepted:
  "llm_generate env_fail 0 job_a = Inl (Error failure_message)
   \<and> scoring_loop env_fail 5 (3/5) [job_a] init_state =
       \<lparr>matched_jobs = [(9/10, job_a, '' Match Score: 90%'')], jobs_checked = 1,
        completions = [job_a]\<rparr>"
proof -
  have g: "generate_response env_fail i job_a =
      ''I apologize, but I encountered an error processing your request: '' @ failure_message" for i
    by (simp add: generate_response_def env_fail_def)
  have "accept env_fail (3/5) i job_a = Some (9/10, job_a, '' Match Score: 90%'')" for i
    by (simp add: accept_eval [OF g split_failure] score_failure)
  then show ?thesis
    by (simp add: loop_body_cases init_state_def env_fail_def)
qed

end
